theory Spec2Isabelle
  imports Main "HOL-Library.AList"
begin

section \<open>RDF terms, triples and graphs\<close>

text \<open>
  The terms that \<^verbatim>\<open>validate.py\<close> finds and puts in the three positions of a
  triple: the terms of the RDF library (\<open>URIRef\<close>, \<open>BNode\<close>, \<open>Literal\<close>, all three
  subclasses of Python's \<open>str\<close>), a blank node made by the call \<open>BNode()\<close> without an
  argument (its identifier is generated and differs from every other identifier; the model
  numbers them), and a whole graph used as the object of a triple (lines 207 and 236). A
  \<open>Literal\<close> is a plain literal: language tags and datatypes are not modelled. A
  character of a string is a code point below 256.

  A Python variable that holds a term or \<open>None\<close> is a \<open>node option\<close>.
\<close>

datatype node =
    URIRef string
  | BNode string
  | Literal string
  | FreshBNode nat
  | GraphNode "(node \<times> node \<times> node) list"

type_synonym triple = "node \<times> node \<times> node"

text \<open>
  A graph is a set of triples together with its prefix bindings. The triples are kept as a
  list without repetitions, in the order in which iteration over the graph yields them;
  \<open>namespaces\<close> is what \<open>g.namespaces()\<close> yields, pairs of a prefix and a namespace IRI.
\<close>

record graph =
  triples :: "triple list"
  namespaces :: "(string \<times> string) list"

text \<open>The errors the code raises, as values.\<close>

datatype error =
    AssertionError string
  | UnboundLocalError string
  | KeyError string
  | ValueError
  | TypeError
  | AttributeError string
  | QueryError string
  | EngineError string

text \<open>
  Modelled from the spec: \<open>Graph()\<close>, \<open>Graph.add\<close>, \<open>Graph.bind\<close> and \<open>+\<close> belong to
  the RDF library, which is not among the sources. The spec describes a graph as a set of
  triples over RDF terms with a table of prefix bindings, combined by set union: adding a
  triple that is present changes nothing, binding a prefix sets its namespace, and the sum
  of two graphs is a new graph with the triples of both. \<open>graph_add\<close> adds a triple of
  terms. \<open>Graph_add\<close> is the method as Python calls it, with three values each of which
  may be \<open>None\<close>: a triple is over terms, so the library's assertion that subject,
  predicate and object are terms fails on \<open>None\<close>.
\<close>

definition Graph :: graph where
  "Graph = \<lparr>triples = [], namespaces = []\<rparr>"

definition graph_add :: "graph \<Rightarrow> triple \<Rightarrow> graph" where
  "graph_add g t = (if t \<in> set (triples g) then g else g\<lparr>triples := triples g @ [t]\<rparr>)"

definition Graph_add :: "graph \<Rightarrow> node option \<times> node option \<times> node option \<Rightarrow> error + graph" where
  "Graph_add g t =
     (case t of
        (None, p, ob) \<Rightarrow> Inl (AssertionError ''Subject None must be an rdflib term'')
      | (Some s, None, ob) \<Rightarrow> Inl (AssertionError ''Predicate None must be an rdflib term'')
      | (Some s, Some p, None) \<Rightarrow> Inl (AssertionError ''Object None must be an rdflib term'')
      | (Some s, Some p, Some ob) \<Rightarrow> Inr (graph_add g (s, p, ob)))"

definition graph_bind :: "graph \<Rightarrow> string \<times> string \<Rightarrow> graph" where
  "graph_bind g b = g\<lparr>namespaces := AList.update (fst b) (snd b) (namespaces g)\<rparr>"

definition graph_union :: "graph \<Rightarrow> graph \<Rightarrow> graph" where
  "graph_union a b =
     foldl graph_add
       (foldl graph_add (foldl graph_bind Graph (namespaces a @ namespaces b)) (triples a))
       (triples b)"

text \<open>\<open>if x\<close>: on a graph it asks for the number of triples, on a term for the length
  of its string; \<open>None\<close> is false.\<close>

fun truthy :: "node option \<Rightarrow> bool" where
  "truthy None = False"
| "truthy (Some (URIRef s)) = (s \<noteq> [])"
| "truthy (Some (BNode s)) = (s \<noteq> [])"
| "truthy (Some (Literal s)) = (s \<noteq> [])"
| "truthy (Some (FreshBNode n)) = True"
| "truthy (Some (GraphNode ts)) = (ts \<noteq> [])"

section \<open>The namespace dictionary\<close>

text \<open>\<open>self.namespaceDict\<close>: a Python dictionary from prefix to namespace, in insertion
  order (line 226 reads the items in order).\<close>

type_synonym nsdict = "(string \<times> string) list"

text \<open>\<open>__buildNamespaceDict\<close> (lines 148-156). The assertion fails when the prefix is bound
  to another namespace; the dictionary as it is at that moment stays in the object.\<close>

fun buildNamespaceDict :: "nsdict \<Rightarrow> (string \<times> string) list \<Rightarrow> nsdict \<times> error option" where
  "buildNamespaceDict d [] = (d, None)"
| "buildNamespaceDict d ((prefix, path) # rest) =
     (case map_of d prefix of
        Some v \<Rightarrow>
          if path = v then buildNamespaceDict d rest
          else (d, Some (AssertionError ''Same prefix used''))
      | None \<Rightarrow> buildNamespaceDict (d @ [(prefix, path)]) rest)"

section \<open>Constants of the namespaces module\<close>

text \<open>
  Modelled from the spec: the namespace constants \<open>SH\<close>, \<open>BSH\<close> and \<open>RDFS\<close> that
  \<^verbatim>\<open>validate.py\<close> imports from \<^verbatim>\<open>namespaces.py\<close>, a file that is not among
  the sources. The spec names the predicates \<open>sh:result\<close> and \<open>bsh:offendingTriple\<close>; no
  theorem below depends on the text of these IRIs.
\<close>

definition SH :: string where
  "SH = ''http://www.w3.org/ns/shacl#''"

definition BSH :: string where
  "BSH = ''https://brickschema.org/schema/1.1/BrickShape#''"

definition RDFS :: string where
  "RDFS = ''http://www.w3.org/2000/01/rdf-schema#''"

definition SH_result :: node where
  "SH_result = URIRef (SH @ ''result'')"

definition BSH_offendingTriple :: node where
  "BSH_offendingTriple = URIRef (BSH @ ''offendingTriple'')"

section \<open>Strings\<close>

text \<open>\<open>s.split(c)\<close>: the pieces between the occurrences of \<open>c\<close>, at least one piece.\<close>

fun split_on :: "char \<Rightarrow> string \<Rightarrow> string list" where
  "split_on c [] = [[]]"
| "split_on c (x # xs) =
     (if x = c then [] # split_on c xs
      else (case split_on c xs of [] \<Rightarrow> [[x]] | piece # pieces \<Rightarrow> (x # piece) # pieces))"

text \<open>\<open>(a, b) = parts\<close> raises \<open>ValueError\<close> unless there are exactly two parts.\<close>

definition unpack2 :: "string list \<Rightarrow> error + (string \<times> string)" where
  "unpack2 parts = (case parts of [a, b] \<Rightarrow> Inr (a, b) | _ \<Rightarrow> Inl ValueError)"

text \<open>\<open>(a, b) = x.split('#')\<close> on a value returned by \<open>__violationPredicateObj\<close>. The
  three term classes are strings; a generated blank-node identifier contains no \<open>#\<close>, so
  it gives one part; \<open>None\<close> and a graph have no method \<open>split\<close>.\<close>

definition split_hash :: "node option \<Rightarrow> error + (string \<times> string)" where
  "split_hash x =
     (case x of
        None \<Rightarrow> Inl (AttributeError ''split'')
      | Some (URIRef s) \<Rightarrow> unpack2 (split_on (CHR ''#'') s)
      | Some (BNode s) \<Rightarrow> unpack2 (split_on (CHR ''#'') s)
      | Some (Literal s) \<Rightarrow> unpack2 (split_on (CHR ''#'') s)
      | Some (FreshBNode n) \<Rightarrow> Inl ValueError
      | Some (GraphNode ts) \<Rightarrow> Inl (AttributeError ''split''))"

definition endswith :: "string \<Rightarrow> string \<Rightarrow> bool" where
  "endswith s suffix =
     (length suffix \<le> length s \<and> drop (length s - length suffix) s = suffix)"

fun startswith :: "string \<Rightarrow> string \<Rightarrow> bool" where
  "startswith s [] = True"
| "startswith [] (c # cs) = False"
| "startswith (x # xs) (c # cs) = (x = c \<and> startswith xs cs)"

text \<open>\<open>sub in s\<close> on strings.\<close>

fun contains :: "string \<Rightarrow> string \<Rightarrow> bool" where
  "contains [] sub = (sub = [])"
| "contains (x # xs) sub = (startswith (x # xs) sub \<or> contains xs sub)"

text \<open>The characters that \<open>strip()\<close> removes from an ASCII string.\<close>

definition is_space :: "char \<Rightarrow> bool" where
  "is_space c = (c \<in> set [CHR '' '', CHR 0x09, CHR 0x0A, CHR 0x0B, CHR 0x0C, CHR 0x0D,
                           CHR 0x1C, CHR 0x1D, CHR 0x1E, CHR 0x1F])"

text \<open>\<open>line.strip()\<close> as a condition: some character is left.\<close>

definition strip_nonempty :: "string \<Rightarrow> bool" where
  "strip_nonempty line = (\<exists>c \<in> set line. \<not> is_space c)"

section \<open>Queries\<close>

text \<open>
  The query texts of lines 160 and 176 are made by pasting strings into a SPARQL pattern
  and are prepared with \<open>initNs=self.namespaceDict\<close>. Every string the code pastes is
  meant as a prefixed name \<open>prefix:local\<close>. Preparing the query first parses the text
  and then resolves the prefixes: it fails when the text is not a legal prefixed name, and
  it fails when the prefix is not bound; otherwise the name stands for the namespace bound
  to \<open>prefix\<close> followed by \<open>local\<close>.

  The legal names follow the grammar of SPARQL 1.1 (rules \<open>PN_CHARS_BASE\<close>,
  \<open>PN_CHARS_U\<close>, \<open>PN_CHARS\<close>, \<open>PN_PREFIX\<close>, \<open>PN_LOCAL\<close>), on code points below 256.
  The escapes of a local name (\<open>%\<close> with two hexadecimal digits, and a backslash) are
  not modelled: a text with \<open>%\<close> or a backslash counts as not parsing, as does every
  other text that is not one prefixed name.
\<close>

definition pn_chars_base :: "char \<Rightarrow> bool" where
  "pn_chars_base c =
     (let n = (of_char c :: nat)
      in (65 \<le> n \<and> n \<le> 90) \<or> (97 \<le> n \<and> n \<le> 122) \<or> (192 \<le> n \<and> n \<le> 214)
         \<or> (216 \<le> n \<and> n \<le> 246) \<or> 248 \<le> n)"

definition is_digit :: "char \<Rightarrow> bool" where
  "is_digit c = (let n = (of_char c :: nat) in 48 \<le> n \<and> n \<le> 57)"

definition pn_chars_u :: "char \<Rightarrow> bool" where
  "pn_chars_u c = (pn_chars_base c \<or> c = CHR ''_'')"

definition pn_chars :: "char \<Rightarrow> bool" where
  "pn_chars c = (pn_chars_u c \<or> c = CHR ''-'' \<or> is_digit c \<or> c = CHR 0xB7)"

text \<open>\<open>PN_PREFIX\<close>, or no prefix at all.\<close>

definition pn_prefix_ok :: "string \<Rightarrow> bool" where
  "pn_prefix_ok k =
     (k = [] \<or>
      (pn_chars_base (hd k) \<and> list_all (\<lambda>c. pn_chars c \<or> c = CHR ''.'') k \<and> pn_chars (last k)))"

text \<open>\<open>PN_LOCAL\<close> without escapes, or no local part at all.\<close>

definition pn_local_ok :: "string \<Rightarrow> bool" where
  "pn_local_ok l =
     (l = [] \<or>
      ((pn_chars_u (hd l) \<or> hd l = CHR '':'' \<or> is_digit (hd l))
       \<and> list_all (\<lambda>c. pn_chars c \<or> c = CHR ''.'' \<or> c = CHR '':'') l
       \<and> (pn_chars (last l) \<or> last l = CHR '':'')))"

text \<open>Parsing one pasted text: the prefix is the text before the first colon.\<close>

definition parse_pname :: "string \<Rightarrow> error + (string \<times> string)" where
  "parse_pname pn =
     (let pfx = takeWhile (\<lambda>c. c \<noteq> CHR '':'') pn;
          local = drop (Suc (length pfx)) pn
      in if CHR '':'' \<in> set pn \<and> pn_prefix_ok pfx \<and> pn_local_ok local
         then Inr (pfx, local)
         else Inl (QueryError ''parse error''))"

text \<open>Resolving the prefix of a parsed name with the dictionary.\<close>

definition resolve_prefix :: "nsdict \<Rightarrow> string \<times> string \<Rightarrow> error + node" where
  "resolve_prefix nd pl =
     (case map_of nd (fst pl) of
        None \<Rightarrow> Inl (QueryError ''Unknown namespace prefix'')
      | Some ns \<Rightarrow> Inr (URIRef (ns @ snd pl)))"

definition resolve_pname :: "nsdict \<Rightarrow> string \<Rightarrow> error + node" where
  "resolve_pname nd pn =
     (case parse_pname pn of Inl e \<Rightarrow> Inl e | Inr pl \<Rightarrow> resolve_prefix nd pl)"

text \<open>One position of the pattern of \<open>__queryDataGraph\<close>: \<open>None\<close> or the empty string
  gives a variable (\<open>s if s else '?s'\<close>), anything else is pasted into the text.\<close>

definition parse_pattern :: "string option \<Rightarrow> error + (string \<times> string) option" where
  "parse_pattern x =
     (case x of
        None \<Rightarrow> Inr None
      | Some pn \<Rightarrow>
          if pn = [] then Inr None
          else (case parse_pname pn of Inl e \<Rightarrow> Inl e | Inr pl \<Rightarrow> Inr (Some pl)))"

definition resolve_pattern :: "nsdict \<Rightarrow> (string \<times> string) option \<Rightarrow> error + node option" where
  "resolve_pattern nd x =
     (case x of
        None \<Rightarrow> Inr None
      | Some pl \<Rightarrow> (case resolve_prefix nd pl of Inl e \<Rightarrow> Inl e | Inr t \<Rightarrow> Inr (Some t)))"

definition pat_matches :: "node option \<Rightarrow> node \<Rightarrow> bool" where
  "pat_matches pat x = (case pat of None \<Rightarrow> True | Some t \<Rightarrow> x = t)"

text \<open>A row of \<open>SELECT ?s ?p ?o\<close>: a variable that does not occur in the pattern is
  unbound in the row, which Python reads as \<open>None\<close>.\<close>

type_synonym row = "node option \<times> node option \<times> node option"

definition row_value :: "node option \<Rightarrow> node \<Rightarrow> node option" where
  "row_value pat x = (case pat of None \<Rightarrow> Some x | Some t \<Rightarrow> None)"

text \<open>\<open>__queryDataGraph\<close> (lines 159-169): the whole text is parsed, then the prefixes
  are resolved, then the pattern is matched against the data graph.\<close>

definition queryDataGraph ::
  "nsdict \<Rightarrow> graph \<Rightarrow> string option \<Rightarrow> string option \<Rightarrow> string option \<Rightarrow> error + row list" where
  "queryDataGraph nd dg s p ob =
     (case parse_pattern s of Inl e \<Rightarrow> Inl e | Inr ls \<Rightarrow>
     (case parse_pattern p of Inl e \<Rightarrow> Inl e | Inr lp \<Rightarrow>
     (case parse_pattern ob of Inl e \<Rightarrow> Inl e | Inr lo \<Rightarrow>
     (case resolve_pattern nd ls of Inl e \<Rightarrow> Inl e | Inr ps \<Rightarrow>
     (case resolve_pattern nd lp of Inl e \<Rightarrow> Inl e | Inr pp \<Rightarrow>
     (case resolve_pattern nd lo of Inl e \<Rightarrow> Inl e | Inr po \<Rightarrow>
        (let res = map (\<lambda>(s', p', o'). (row_value ps s', row_value pp p', row_value po o'))
                     (filter (\<lambda>(s', p', o'). pat_matches ps s' \<and> pat_matches pp p'
                                               \<and> pat_matches po o')
                        (triples dg))
         in if length res = 0
            then Inl (AssertionError ''Must have at least one triple'')
            else Inr res)))))))"

text \<open>\<open>__violationPredicateObj\<close> (lines 175-185): the object of the first triple of the
  violation with the given predicate, \<open>None\<close> when there is none.\<close>

definition violationPredicateObj ::
  "nsdict \<Rightarrow> graph \<Rightarrow> string \<Rightarrow> bool \<Rightarrow> error + node option" where
  "violationPredicateObj nd violation predicate mustFind =
     (case resolve_pname nd predicate of
        Inl e \<Rightarrow> Inl e
      | Inr pr \<Rightarrow>
          (let res = filter (\<lambda>(s, p, ob). p = pr) (triples violation)
           in if mustFind \<and> length res \<noteq> 1 then Inl (AssertionError ''Must have predicate'')
              else (case res of [] \<Rightarrow> Inr None | (s, p, ob) # rest \<Rightarrow> Inr (Some ob))))"

section \<open>The validator\<close>

text \<open>
  The attributes of a \<open>Validate\<close> object. \<open>data_graph\<close>, \<open>conforms\<close>, \<open>results_graph\<close>
  and \<open>results_text\<close> exist only once \<open>validate\<close> has set them, \<open>violationDict\<close> only
  once \<open>__attachOffendingTriples\<close> has (\<open>None\<close> is an attribute that does not exist yet).
  \<open>violationDict\<close> is a dictionary in insertion order. \<open>bnodes\<close> is not an attribute: it
  counts the blank nodes generated so far, so that each \<open>BNode()\<close> is new.
\<close>

record validator =
  attachOffender :: bool
  brickG :: graph
  shapeG :: graph
  namespaceDict :: nsdict
  data_graph :: "graph option"
  conforms :: "bool option"
  results_graph :: "graph option"
  results_text :: "string option"
  violationDict :: "(node \<times> graph) list option"
  bnodes :: nat

subsection \<open>Grouping the results graph by violation\<close>

text \<open>Lines 131-136, the first loop over the results graph: a new graph, bound to every
  prefix of the dictionary, for each object of \<open>sh:result\<close> not yet a key.\<close>

fun newViolations :: "nsdict \<Rightarrow> triple list \<Rightarrow> (node \<times> graph) list \<Rightarrow> (node \<times> graph) list" where
  "newViolations nd [] vd = vd"
| "newViolations nd ((s, p, ob) # rest) vd =
     newViolations nd rest
       (if ob \<notin> set (map fst vd) \<and> p = SH_result
        then AList.update ob (foldl graph_bind Graph nd) vd
        else vd)"

text \<open>Lines 138-140, the second loop: a triple whose subject is a key is added to the
  graph of that key.\<close>

fun fillViolations :: "triple list \<Rightarrow> (node \<times> graph) list \<Rightarrow> (node \<times> graph) list" where
  "fillViolations [] vd = vd"
| "fillViolations ((s, p, ob) # rest) vd =
     fillViolations rest
       (case map_of vd s of
          Some g \<Rightarrow> AList.update s (graph_add g (s, p, ob)) vd
        | None \<Rightarrow> vd)"

definition groupViolations :: "nsdict \<Rightarrow> graph \<Rightarrow> (node \<times> graph) list" where
  "groupViolations nd rg = fillViolations (triples rg) (newViolations nd (triples rg) [])"

subsection \<open>Finding the offending triples of one violation\<close>

text \<open>Lines 205-207 and 234-236: a new graph with the one triple, attached to the
  violation under a new blank node. The first \<open>add\<close> raises when one of the three values
  is \<open>None\<close>.\<close>

definition attachTriple ::
  "node option \<times> node option \<times> node option \<Rightarrow> graph \<times> nat \<Rightarrow> (graph \<times> nat) \<times> error option" where
  "attachTriple t vn =
     (case Graph_add Graph t of
        Inl e \<Rightarrow> (vn, Some e)
      | Inr g \<Rightarrow>
          (case Graph_add (fst vn)
                  (Some (FreshBNode (snd vn)), Some BSH_offendingTriple, Some (GraphNode (triples g))) of
             Inl e \<Rightarrow> (vn, Some e)
           | Inr violation' \<Rightarrow> ((violation', Suc (snd vn)), None)))"

text \<open>Lines 233-236: one attachment for each row of the query.\<close>

fun attachEach ::
  "node option \<Rightarrow> node option \<Rightarrow> row list \<Rightarrow> graph \<times> nat \<Rightarrow> (graph \<times> nat) \<times> error option" where
  "attachEach focusNode fullPath [] vn = (vn, None)"
| "attachEach focusNode fullPath ((s, p, ob) # res) vn =
     (case attachTriple (focusNode, fullPath, ob) vn of
        (vn', Some e) \<Rightarrow> (vn', Some e)
      | (vn', None) \<Rightarrow> attachEach focusNode fullPath res vn')"

text \<open>Lines 215-237, the branch of a shape whose name ends in \<open>DomainShape\<close>.\<close>

definition domainShapeTriples ::
  "nsdict \<Rightarrow> graph \<Rightarrow> string \<Rightarrow> graph \<times> nat \<Rightarrow> (graph \<times> nat) \<times> error option" where
  "domainShapeTriples nd dg shapeName vn =
     (let brickProp = take (length shapeName - length ''DomainShape'') shapeName;
          path = ''brick:'' @ brickProp
      in case map_of nd ''brick'' of
           None \<Rightarrow> (vn, Some (KeyError ''brick''))
         | Some brick \<Rightarrow>
             (let fullPath = brick @ brickProp
              in case violationPredicateObj nd (fst vn) ''sh:focusNode'' True of
                   Inl e \<Rightarrow> (vn, Some e)
                 | Inr focusNode \<Rightarrow>
                     (case split_hash focusNode of
                        Inl e \<Rightarrow> (vn, Some e)
                      | Inr (ns, name) \<Rightarrow>
                          (let nss = map fst (filter (\<lambda>(key, val). ns @ ''#'' = val) nd)
                           in if length nss = 0
                              then (vn, Some (AssertionError ''Must find a prefix''))
                              else (case queryDataGraph nd dg
                                           (Some (hd nss @ '':'' @ name)) (Some path) None of
                                      Inl e \<Rightarrow> (vn, Some e)
                                    | Inr res \<Rightarrow>
                                        attachEach focusNode (Some (URIRef fullPath)) res vn)))))"

text \<open>
  \<open>__triplesForOneViolation\<close> (lines 190-242). The result is the violation graph as the
  call leaves it, with the blank-node counter, and the exception raised, if any. On the
  last path (line 240) the argument of the logging call reads the local variable \<open>g\<close>,
  which is assigned only on the two paths that have returned before: Python raises
  \<open>UnboundLocalError\<close>.
\<close>

definition triplesForOneViolation ::
  "nsdict \<Rightarrow> graph \<Rightarrow> graph \<times> nat \<Rightarrow> (graph \<times> nat) \<times> error option" where
  "triplesForOneViolation nd dg vn =
     (case violationPredicateObj nd (fst vn) ''sh:resultPath'' False of
        Inl e \<Rightarrow> (vn, Some e)
      | Inr resultPath \<Rightarrow>
          if truthy resultPath then
            (case violationPredicateObj nd (fst vn) ''sh:focusNode'' True of
               Inl e \<Rightarrow> (vn, Some e)
             | Inr focusNode \<Rightarrow>
                 (case violationPredicateObj nd (fst vn) ''sh:value'' False of
                    Inl e \<Rightarrow> (vn, Some e)
                  | Inr valueNode \<Rightarrow> attachTriple (focusNode, resultPath, valueNode) vn))
          else
            (case violationPredicateObj nd (fst vn) ''sh:sourceShape'' True of
               Inl e \<Rightarrow> (vn, Some e)
             | Inr sourceShape \<Rightarrow>
                 (case split_hash sourceShape of
                    Inl e \<Rightarrow> (vn, Some e)
                  | Inr (bsh, shapeName) \<Rightarrow>
                      if endswith shapeName ''DomainShape''
                      then domainShapeTriples nd dg shapeName vn
                      else (vn, Some (UnboundLocalError ''g'')))))"

text \<open>Lines 143-144: the violations in dictionary order; an exception ends the loop.\<close>

fun resolveAll ::
  "nsdict \<Rightarrow> graph \<Rightarrow> (node \<times> graph) list \<Rightarrow> nat \<Rightarrow> ((node \<times> graph) list \<times> nat) \<times> error option" where
  "resolveAll nd dg [] n = (([], n), None)"
| "resolveAll nd dg ((k, violation) # rest) n =
     (case triplesForOneViolation nd dg (violation, n) of
        ((violation', n'), Some e) \<Rightarrow> (((k, violation') # rest, n'), Some e)
      | ((violation', n'), None) \<Rightarrow>
          (case resolveAll nd dg rest n' of
             ((rest', n''), r) \<Rightarrow> (((k, violation') # rest', n''), r)))"

subsection \<open>Attaching the offending triples\<close>

text \<open>\<open>__attachOffendingTriples\<close> (lines 114-144). Line 117 empties the dictionary before
  the results graph and the data graph are registered.\<close>

definition attachOffendingTriples :: "validator \<Rightarrow> validator \<times> error option" where
  "attachOffendingTriples self =
     (case results_graph self of
        None \<Rightarrow> (self\<lparr>namespaceDict := []\<rparr>, Some (AttributeError ''results_graph''))
      | Some rg \<Rightarrow>
          (case buildNamespaceDict [] (namespaces rg) of
             (d1, Some e) \<Rightarrow> (self\<lparr>namespaceDict := d1\<rparr>, Some e)
           | (d1, None) \<Rightarrow>
               (case data_graph self of
                  None \<Rightarrow> (self\<lparr>namespaceDict := d1\<rparr>, Some (AttributeError ''data_graph''))
                | Some dg \<Rightarrow>
                    (case buildNamespaceDict d1 (namespaces dg) of
                       (d2, Some e) \<Rightarrow> (self\<lparr>namespaceDict := d2\<rparr>, Some e)
                     | (d2, None) \<Rightarrow>
                         (case resolveAll d2 dg (groupViolations d2 rg) (bnodes self) of
                            ((vd, n), r) \<Rightarrow>
                              (self\<lparr>namespaceDict := d2, violationDict := Some vd, bnodes := n\<rparr>,
                               r))))))"

subsection \<open>Construction and the public methods\<close>

text \<open>
  The update \<open>DELETE { ?s p ?o .} WHERE { ?s p ?o . }\<close> of lines 39-42, prepared with
  the dictionary: every triple whose predicate is the named one is removed.
\<close>

definition update_delete :: "nsdict \<Rightarrow> string \<Rightarrow> graph \<Rightarrow> error + graph" where
  "update_delete nd pn g =
     (case resolve_pname nd pn of
        Inl e \<Rightarrow> Inl e
      | Inr pr \<Rightarrow> Inr (g\<lparr>triples := filter (\<lambda>(s, p, ob). p \<noteq> pr) (triples g)\<rparr>))"

text \<open>
  \<open>__init__\<close> (lines 24-47). The two files \<^verbatim>\<open>Brick.ttl\<close> and
  \<^verbatim>\<open>BrickShape.ttl\<close> are not among the sources: the graphs parsed from them are
  the arguments \<open>brickTtl\<close> and \<open>shapeTtl\<close>.
\<close>

definition init :: "bool \<Rightarrow> graph \<Rightarrow> graph \<Rightarrow> error + validator" where
  "init attach brickTtl shapeTtl =
     (case buildNamespaceDict [] (namespaces brickTtl) of
        (d, Some e) \<Rightarrow> Inl e
      | (d, None) \<Rightarrow>
          (case update_delete d ''rdfs:domain'' brickTtl of
             Inl e \<Rightarrow> Inl e
           | Inr g1 \<Rightarrow>
               (case update_delete d ''rdfs:range'' g1 of
                  Inl e \<Rightarrow> Inl e
                | Inr g2 \<Rightarrow>
                    Inr \<lparr>attachOffender = attach, brickG = g2, shapeG = shapeTtl,
                         namespaceDict = d, data_graph = None, conforms = None,
                         results_graph = None, results_text = None, violationDict = None,
                         bnodes = 0\<rparr>)))"

text \<open>\<open>x if x else default\<close> on an optional graph argument (lines 66-67): an empty graph
  counts as false, as \<open>None\<close> does.\<close>

definition graph_or :: "graph option \<Rightarrow> graph \<Rightarrow> graph" where
  "graph_or x dflt =
     (case x of None \<Rightarrow> dflt | Some g \<Rightarrow> if triples g = [] then dflt else g)"

text \<open>The validation engine \<open>pyshacl.validate\<close> is an argument: from the data graph,
  the shape graph, the ontology graph, \<open>inference\<close>, \<open>abort_on_error\<close>, \<open>meta_shacl\<close>
  and \<open>debug\<close> it gives the conformance flag, the results graph and the results text,
  or raises.\<close>

type_synonym engine =
  "graph \<Rightarrow> graph \<Rightarrow> graph \<Rightarrow> string \<Rightarrow> bool \<Rightarrow> bool \<Rightarrow> bool \<Rightarrow> error + (bool \<times> graph \<times> string)"

record options =
  inference :: string
  abort_on_error :: bool
  advanced :: bool
  meta_shacl :: bool
  debug :: bool

text \<open>\<open>validate\<close> (lines 50-85).\<close>

definition validate ::
  "engine \<Rightarrow> validator \<Rightarrow> graph \<Rightarrow> graph option \<Rightarrow> graph option \<Rightarrow> options
     \<Rightarrow> validator \<times> (error + (bool \<times> graph \<times> string))" where
  "validate pyshacl self dg shacl_graph ont_graph opts =
     (let sg = graph_or shacl_graph (shapeG self);
          og = graph_or ont_graph (brickG self);
          self1 = self\<lparr>data_graph := Some dg\<rparr>
      in case pyshacl dg sg og (inference opts) (abort_on_error opts) (meta_shacl opts) (debug opts) of
           Inl e \<Rightarrow> (self1, Inl e)
         | Inr (c, rg, rt) \<Rightarrow>
             (let self2 = self1\<lparr>conforms := Some c, results_graph := Some rg,
                                results_text := Some rt\<rparr>
              in if c \<or> \<not> attachOffender self2 then (self2, Inr (c, rg, rt))
                 else (case attachOffendingTriples self2 of
                         (self3, Some e) \<Rightarrow> (self3, Inl e)
                       | (self3, None) \<Rightarrow>
                           (case violationDict self3 of
                              None \<Rightarrow> (self3, Inl (AttributeError ''violationDict''))
                            | Some vd \<Rightarrow>
                                (self3, Inr (c, foldl graph_union Graph (map snd vd), rt))))))"

text \<open>\<open>addShapeFile\<close> (lines 87-96); the argument is the graph parsed from the file.\<close>

definition addShapeFile :: "validator \<Rightarrow> graph \<Rightarrow> validator" where
  "addShapeFile self g = self\<lparr>shapeG := graph_union (shapeG self) g\<rparr>"

definition accumulatedNamespaces :: "validator \<Rightarrow> nsdict" where
  "accumulatedNamespaces self = namespaceDict self"

text \<open>\<open>violationList\<close> (lines 105-109).\<close>

definition violationList :: "validator \<Rightarrow> error + graph list" where
  "violationList self =
     (case violationDict self of
        None \<Rightarrow> Inl (AttributeError ''violationDict'')
      | Some vd \<Rightarrow> Inr (map snd vd))"

section \<open>Serializing the violations\<close>

text \<open>
  The output file is the list of the strings written to it. The Turtle serializer of the
  RDF library is an argument \<open>ser\<close>: it gives the lines of \<open>g.serialize(format='ttl')\<close>.
\<close>

definition newline :: string where
  "newline = [CHR 0x0A]"

text \<open>\<open>__appendGraph\<close> (lines 262-275).\<close>

definition appendGraph ::
  "(graph \<Rightarrow> string list) \<Rightarrow> nsdict \<Rightarrow> string list \<Rightarrow> string option \<Rightarrow> graph \<Rightarrow> string list" where
  "appendGraph ser nd out msg g =
     (let out1 = (case msg of None \<Rightarrow> out | Some m \<Rightarrow> if m = [] then out else out @ [m]);
          g1 = foldl graph_bind g nd
      in foldl (\<lambda>acc line.
                  if \<not> startswith line ''@prefix'' \<and> \<not> contains line ''offendingTriple''
                     \<and> strip_nonempty line
                  then acc @ [line, newline] else acc)
           out1 (ser g1))"

text \<open>Lines 286-289: the triples of the object of an attachment are copied into a new
  graph. Iterating over a term goes through the characters of its string, none of which
  unpacks into three values.\<close>

definition copyInner :: "node \<Rightarrow> error + graph" where
  "copyInner x =
     (case x of
        GraphNode ts \<Rightarrow> Inr (foldl graph_add Graph ts)
      | URIRef s \<Rightarrow> if s = [] then Inr Graph else Inl ValueError
      | BNode s \<Rightarrow> if s = [] then Inr Graph else Inl ValueError
      | Literal s \<Rightarrow> if s = [] then Inr Graph else Inl ValueError
      | FreshBNode n \<Rightarrow> Inl ValueError)"

text \<open>Lines 283-289.\<close>

fun tripleGraphsOf :: "triple list \<Rightarrow> graph list \<Rightarrow> error + graph list" where
  "tripleGraphsOf [] tripleGraphs = Inr tripleGraphs"
| "tripleGraphsOf ((s, p, ob) # rest) tripleGraphs =
     (if p = BSH_offendingTriple
      then (case copyInner ob of
              Inl e \<Rightarrow> Inl e
            | Inr tripleG \<Rightarrow> tripleGraphsOf rest (tripleGraphs @ [tripleG]))
      else tripleGraphsOf rest tripleGraphs)"

definition placeholder :: string where
  "placeholder = ''Please add triple finder for the above violation!!!'' @ newline"

text \<open>\<open>__appendViolation\<close> (lines 278-300): what has been written, and the exception.\<close>

definition appendViolation ::
  "(graph \<Rightarrow> string list) \<Rightarrow> nsdict \<Rightarrow> string list \<Rightarrow> string option \<Rightarrow> graph
     \<Rightarrow> string list \<times> error option" where
  "appendViolation ser nd out msg g =
     (let out1 = appendGraph ser nd out msg g
      in case tripleGraphsOf (triples g) [] of
           Inl e \<Rightarrow> (out1, Some e)
         | Inr tripleGraphs \<Rightarrow>
             if length tripleGraphs = 0 then (out1 @ [placeholder], None)
             else (let out2 = (if length tripleGraphs = 1
                               then out1 @ [''Offending triple:'' @ newline]
                               else out1 @ [''Potential offending triples:'' @ newline])
                   in (foldl (\<lambda>acc tripleG. appendGraph ser nd acc None tripleG) out2 tripleGraphs,
                       None)))"

section \<open>Notions used in the statements\<close>

text \<open>The objects of the triples of a graph with a given predicate, in graph order, and
  the attachments of a violation: the objects of its \<open>bsh:offendingTriple\<close> triples.\<close>

definition objects :: "graph \<Rightarrow> node \<Rightarrow> node list" where
  "objects g pr = map (\<lambda>(s, p, ob). ob) (filter (\<lambda>(s, p, ob). p = pr) (triples g))"

definition attachments :: "graph \<Rightarrow> node list" where
  "attachments g = objects g BSH_offendingTriple"

text \<open>
  What the report shows of a graph, following the words of the spec (section 4.5) and not
  the code, to be compared with \<open>__appendGraph\<close>: the lines of its serialization, each
  followed by a line break, without the prefix declarations, the lines that name the
  marker predicate and the blank lines. The graph is serialized with the prefixes of the
  dictionary bound.
\<close>

definition kept :: "string \<Rightarrow> bool" where
  "kept line =
     (\<not> startswith line ''@prefix'' \<and> \<not> contains line ''offendingTriple'' \<and> strip_nonempty line)"

definition shown :: "(graph \<Rightarrow> string list) \<Rightarrow> nsdict \<Rightarrow> graph \<Rightarrow> string list" where
  "shown ser nd g = concat (map (\<lambda>line. [line, newline]) (filter kept (ser (foldl graph_bind g nd))))"

text \<open>A session: method calls made one after the other on one validator object. An
  exception raised by \<open>validate\<close> leaves the object as it is at that moment.\<close>

datatype call =
    Validate graph "graph option" "graph option" options
  | AddShapeFile graph

fun run :: "engine \<Rightarrow> validator \<Rightarrow> call list \<Rightarrow> validator" where
  "run pyshacl self [] = self"
| "run pyshacl self (Validate dg shacl_graph ont_graph opts # calls) =
     run pyshacl (fst (validate pyshacl self dg shacl_graph ont_graph opts)) calls"
| "run pyshacl self (AddShapeFile g # calls) = run pyshacl (addShapeFile self g) calls"

section \<open>Example inputs\<close>

text \<open>A meter with one point, a results graph reporting one violation with a result path
  and a value, violation graphs (one with a result path and no value, one from a domain
  shape, one that no branch handles, one from a domain shape whose focus node has no
  \<open>#\<close>), an engine that reports every non-empty data graph as violating, and a small
  ontology.\<close>

definition ex_brick :: string where
  "ex_brick = ''https://brickschema.org/schema/1.1/Brick#''"

definition ex_ns :: string where
  "ex_ns = ''http://example.com#''"

definition ex_nd :: nsdict where
  "ex_nd = [(''sh'', SH), (''brick'', ex_brick), (''ex'', ex_ns)]"

definition ex_data :: graph where
  "ex_data =
     \<lparr>triples = [(URIRef (ex_ns @ ''Meter1''), URIRef (ex_brick @ ''hasPoint''),
                  URIRef (ex_ns @ ''Point1''))],
      namespaces = [(''brick'', ex_brick), (''ex'', ex_ns)]\<rparr>"

definition ex_data2 :: graph where
  "ex_data2 =
     \<lparr>triples = [(URIRef ''http://building.org#Meter9'', URIRef (ex_brick @ ''hasPoint''),
                  URIRef ''http://building.org#Point9'')],
      namespaces = [(''brick'', ex_brick), (''bldg'', ''http://building.org#'')]\<rparr>"

definition ex_path_violation :: graph where
  "ex_path_violation =
     \<lparr>triples = [(BNode ''v1'', URIRef (SH @ ''focusNode''), URIRef (ex_ns @ ''Meter1'')),
                 (BNode ''v1'', URIRef (SH @ ''resultPath''), URIRef (ex_brick @ ''hasPoint''))],
      namespaces = []\<rparr>"

definition ex_domain_violation :: graph where
  "ex_domain_violation =
     \<lparr>triples = [(BNode ''v2'', URIRef (SH @ ''focusNode''), URIRef (ex_ns @ ''Meter1'')),
                 (BNode ''v2'', URIRef (SH @ ''sourceShape''),
                  URIRef (BSH @ ''hasPointDomainShape''))],
      namespaces = []\<rparr>"

definition ex_unhandled_violation :: graph where
  "ex_unhandled_violation =
     \<lparr>triples = [(BNode ''v3'', URIRef (SH @ ''focusNode''), URIRef (ex_ns @ ''Meter1'')),
                 (BNode ''v3'', URIRef (SH @ ''sourceShape''), URIRef (BSH @ ''MeterShape''))],
      namespaces = []\<rparr>"

definition ex_slash_violation :: graph where
  "ex_slash_violation =
     \<lparr>triples = [(BNode ''v4'', URIRef (SH @ ''focusNode''), URIRef ''http://example.com/Meter1''),
                 (BNode ''v4'', URIRef (SH @ ''sourceShape''),
                  URIRef (BSH @ ''hasPointDomainShape''))],
      namespaces = []\<rparr>"

definition ex_slash_data :: graph where
  "ex_slash_data =
     \<lparr>triples = [(URIRef ''http://example.com/Meter1'', URIRef (ex_brick @ ''hasPoint''),
                  URIRef ''http://example.com/Point1'')],
      namespaces = [(''brick'', ex_brick), (''ex'', ''http://example.com/'')]\<rparr>"

definition ex_slash_nd :: nsdict where
  "ex_slash_nd = [(''sh'', SH), (''brick'', ex_brick), (''ex'', ''http://example.com/'')]"


definition ex_results :: graph where
  "ex_results =
     \<lparr>triples = [(BNode ''report'', URIRef (SH @ ''conforms''), Literal ''false''),
                 (BNode ''v1'', URIRef (SH @ ''focusNode''), URIRef (ex_ns @ ''Meter1'')),
                 (BNode ''report'', SH_result, BNode ''v1''),
                 (BNode ''v1'', URIRef (SH @ ''resultPath''), URIRef (ex_brick @ ''hasPoint'')),
                 (BNode ''v1'', URIRef (SH @ ''value''), URIRef (ex_ns @ ''Point1''))],
      namespaces = [(''sh'', SH)]\<rparr>"

definition ex_engine :: engine where
  "ex_engine dg sg og infer abort meta dbg =
     (if triples dg = [] then Inr (True, Graph, ''Conforms'')
      else Inr (False, ex_results, ''Does not conform''))"

definition ex_opts :: options where
  "ex_opts = \<lparr>inference = ''rdfs'', abort_on_error = False, advanced = True,
              meta_shacl = True, debug = False\<rparr>"

definition ex_brick_ttl :: graph where
  "ex_brick_ttl =
     \<lparr>triples = [(URIRef (ex_brick @ ''hasPoint''), URIRef (RDFS @ ''domain''),
                  URIRef (ex_brick @ ''Equipment'')),
                 (URIRef (ex_brick @ ''hasPoint''), URIRef (RDFS @ ''range''),
                  URIRef (ex_brick @ ''Point'')),
                 (URIRef (ex_brick @ ''Point''), URIRef (RDFS @ ''subClassOf''),
                  URIRef (ex_brick @ ''Class''))],
      namespaces = [(''rdfs'', RDFS), (''brick'', ex_brick)]\<rparr>"

definition ex_validator :: validator where
  "ex_validator =
     \<lparr>attachOffender = True,
      brickG = \<lparr>triples = [(URIRef (ex_brick @ ''Point''), URIRef (RDFS @ ''subClassOf''),
                           URIRef (ex_brick @ ''Class''))],
               namespaces = [(''rdfs'', RDFS), (''brick'', ex_brick)]\<rparr>,
      shapeG = Graph,
      namespaceDict = [(''rdfs'', RDFS), (''brick'', ex_brick)],
      data_graph = None, conforms = None, results_graph = None, results_text = None,
      violationDict = None, bnodes = 0\<rparr>"

text \<open>The graph of the violation of \<open>ex_results\<close> after grouping and after the search
  for its offending triple, and the example validator after its first call.\<close>

definition ex_grouped :: graph where
  "ex_grouped =
     \<lparr>triples = [(BNode ''v1'', URIRef (SH @ ''focusNode''), URIRef (ex_ns @ ''Meter1'')),
                 (BNode ''v1'', URIRef (SH @ ''resultPath''), URIRef (ex_brick @ ''hasPoint'')),
                 (BNode ''v1'', URIRef (SH @ ''value''), URIRef (ex_ns @ ''Point1''))],
      namespaces = ex_nd\<rparr>"

definition ex_enriched :: graph where
  "ex_enriched =
     \<lparr>triples = [(BNode ''v1'', URIRef (SH @ ''focusNode''), URIRef (ex_ns @ ''Meter1'')),
                 (BNode ''v1'', URIRef (SH @ ''resultPath''), URIRef (ex_brick @ ''hasPoint'')),
                 (BNode ''v1'', URIRef (SH @ ''value''), URIRef (ex_ns @ ''Point1'')),
                 (FreshBNode 0, BSH_offendingTriple,
                  GraphNode [(URIRef (ex_ns @ ''Meter1''), URIRef (ex_brick @ ''hasPoint''),
                              URIRef (ex_ns @ ''Point1''))])],
      namespaces = ex_nd\<rparr>"

definition ex_called :: validator where
  "ex_called = ex_validator\<lparr>namespaceDict := ex_nd, data_graph := Some ex_data, conforms := Some False,
            results_graph := Some ex_results, results_text := Some ''Does not conform'',
            violationDict := Some [(BNode ''v1'', ex_enriched)], bnodes := Suc 0\<rparr>"

text \<open>A serializer for the examples: one line for each prefix binding and one for each
  triple.\<close>

fun ex_text :: "node \<Rightarrow> string" where
  "ex_text (URIRef s) = ''<'' @ s @ ''>''"
| "ex_text (BNode s) = ''_:'' @ s"
| "ex_text (Literal s) = s"
| "ex_text (FreshBNode n) = ''[]''"
| "ex_text (GraphNode ts) = ''[graph]''"

definition ex_ser :: "graph \<Rightarrow> string list" where
  "ex_ser g =
     map (\<lambda>(p, ns). ''@prefix '' @ p @ '': <'' @ ns @ ''> .'') (namespaces g)
     @ map (\<lambda>(s, p, ob). ex_text s @ '' '' @ ex_text p @ '' '' @ ex_text ob @ '' .'') (triples g)"

section \<open>Properties of the namespace dictionary\<close>

lemma buildNamespaceDict_keeps:
  "map_of d p = Some v \<Longrightarrow> map_of (fst (buildNamespaceDict d ns)) p = Some v"
proof (induction d ns rule: buildNamespaceDict.induct)
  case (1 d)
  then show ?case by simp
next
  case (2 d prefix path rest)
  then show ?case
    by (cases "map_of d prefix") (auto simp: map_of_append split: if_splits)
qed

lemma buildNamespaceDict_conflict:
  "(p, iri) \<in> set ns \<Longrightarrow> map_of d p = Some v \<Longrightarrow> v \<noteq> iri \<Longrightarrow>
   \<exists>m. snd (buildNamespaceDict d ns) = Some (AssertionError m)"
proof (induction d ns rule: buildNamespaceDict.induct)
  case (1 d)
  then show ?case by simp
next
  case (2 d prefix path rest)
  show ?case
  proof (cases "map_of d prefix")
    case None
    with 2 have "p \<noteq> prefix" by auto
    with 2 None have "(p, iri) \<in> set rest" and "map_of (d @ [(prefix, path)]) p = Some v"
      by (auto simp: map_of_append)
    with 2 None show ?thesis by simp
  next
    case (Some w)
    show ?thesis
    proof (cases "path = w")
      case True
      with 2 Some have "(p, iri) \<in> set rest" by auto
      with 2 Some True show ?thesis by simp
    next
      case False
      with Some show ?thesis by simp
    qed
  qed
qed

lemma buildNamespaceDict_same:
  "\<forall>(p, iri) \<in> set ns. map_of d p = Some iri \<Longrightarrow> buildNamespaceDict d ns = (d, None)"
  by (induction d ns rule: buildNamespaceDict.induct) auto

text \<open>
  Claim C3. Whatever dictionary earlier registrations have left (\<open>d\<close> is arbitrary):
  registering a graph one of whose bindings gives a bound prefix a different namespace
  raises the assertion error, and the binding that was there is still there afterwards;
  registering bindings that are all present with the same namespace succeeds and returns
  the dictionary as it was.
\<close>

theorem register_conflict_raises_and_keeps:
  "((p, iri) \<in> set ns \<and> map_of d p = Some v \<and> v \<noteq> iri \<longrightarrow>
      (\<exists>m. snd (buildNamespaceDict d ns) = Some (AssertionError m))
      \<and> map_of (fst (buildNamespaceDict d ns)) p = Some v)
   \<and> ((\<forall>(q, i) \<in> set ns. map_of d q = Some i) \<longrightarrow> buildNamespaceDict d ns = (d, None))"
  using buildNamespaceDict_conflict buildNamespaceDict_keeps buildNamespaceDict_same
  by blast

theorem register_conflict_raises_and_keeps_witness:
  "(snd (buildNamespaceDict [(''brick'', ''https://brickschema.org/schema/1.1/Brick#'')]
           [(''ex'', ''http://example.com#''), (''brick'', ''http://other.org/Brick#'')])
      = Some (AssertionError ''Same prefix used'')
    \<and> map_of (fst (buildNamespaceDict [(''brick'', ''https://brickschema.org/schema/1.1/Brick#'')]
           [(''ex'', ''http://example.com#''), (''brick'', ''http://other.org/Brick#'')])) ''brick''
      = Some ''https://brickschema.org/schema/1.1/Brick#'')
   \<and> buildNamespaceDict [(''brick'', ''https://brickschema.org/schema/1.1/Brick#'')]
           [(''brick'', ''https://brickschema.org/schema/1.1/Brick#'')]
      = ([(''brick'', ''https://brickschema.org/schema/1.1/Brick#'')], None)"
  using register_conflict_raises_and_keeps
    [of "''brick''" "''http://other.org/Brick#''"
        "[(''ex'', ''http://example.com#''), (''brick'', ''http://other.org/Brick#'')]"
        "[(''brick'', ''https://brickschema.org/schema/1.1/Brick#'')]"
        "''https://brickschema.org/schema/1.1/Brick#''"]
  by simp

section \<open>Properties of the grouping\<close>

lemma update_fresh_key: "k \<notin> set (map fst al) \<Longrightarrow> AList.update k v al = al @ [(k, v)]"
  by (induction al) auto

lemma triples_foldl_bind: "triples (foldl graph_bind g nd) = triples g"
  by (induction nd arbitrary: g) (auto simp: graph_bind_def)

lemma newViolations_keys:
  "fst ` set (newViolations nd ts vd) = fst ` set vd \<union> {ob. \<exists>s. (s, SH_result, ob) \<in> set ts}"
proof (induction nd ts vd rule: newViolations.induct)
  case (1 nd vd)
  then show ?case by simp
next
  case (2 nd s p ob rest vd)
  then show ?case by (auto simp: AList.dom_update)
qed

lemma newViolations_distinct:
  "distinct (map fst vd) \<Longrightarrow> distinct (map fst (newViolations nd ts vd))"
  by (induction nd ts vd rule: newViolations.induct) (auto simp: AList.update_keys)

lemma newViolations_empty:
  "\<forall>k g. map_of vd k = Some g \<longrightarrow> triples g = [] \<Longrightarrow>
   map_of (newViolations nd ts vd) k = Some g \<Longrightarrow> triples g = []"
proof (induction nd ts vd rule: newViolations.induct)
  case (1 nd vd)
  then show ?case by simp
next
  case (2 nd s p ob rest vd)
  show ?case
  proof (rule 2(1))
    show "\<forall>k g. map_of (if ob \<notin> set (map fst vd) \<and> p = SH_result
        then AList.update ob (foldl graph_bind Graph nd) vd else vd) k = Some g \<longrightarrow> triples g = []"
      using 2(2) by (auto simp: AList.update_conv' triples_foldl_bind Graph_def)
    show "map_of (newViolations nd rest (if ob \<notin> set (map fst vd) \<and> p = SH_result
        then AList.update ob (foldl graph_bind Graph nd) vd else vd)) k = Some g"
      using 2(3) by simp
  qed
qed

lemma fillViolations_keys: "map fst (fillViolations ts vd) = map fst vd"
proof (induction ts vd rule: fillViolations.induct)
  case (1 vd)
  then show ?case by simp
next
  case (2 s p ob rest vd)
  have "s \<in> fst ` set vd" if "map_of vd s = Some a" for a
    using that by (metis domI dom_map_of_conv_image_fst)
  with 2 show ?case
    by (cases "map_of vd s") (auto simp: AList.update_keys)
qed

lemma triples_graph_add: "set (triples (graph_add g t)) = insert t (set (triples g))"
  by (auto simp: graph_add_def)

lemma distinct_graph_add: "distinct (triples g) \<Longrightarrow> distinct (triples (graph_add g t))"
  by (auto simp: graph_add_def)

lemma fillViolations_content:
  "\<forall>k g. map_of vd k = Some g \<longrightarrow> distinct (triples g) \<and> set (triples g) = {t \<in> A. fst t = k} \<Longrightarrow>
   map_of (fillViolations ts vd) k = Some g \<Longrightarrow>
   distinct (triples g) \<and> set (triples g) = {t \<in> A \<union> set ts. fst t = k}"
proof (induction ts vd arbitrary: A rule: fillViolations.induct)
  case (1 vd)
  then show ?case by simp
next
  case (2 s p ob rest vd)
  let ?vd = "case map_of vd s of Some g \<Rightarrow> AList.update s (graph_add g (s, p, ob)) vd | None \<Rightarrow> vd"
  have inv: "\<forall>k g. map_of ?vd k = Some g \<longrightarrow>
      distinct (triples g) \<and> set (triples g) = {t \<in> insert (s, p, ob) A. fst t = k}"
  proof (cases "map_of vd s")
    case None
    then show ?thesis using 2(2) by auto
  next
    case (Some g0)
    then show ?thesis using 2(2)
      by (auto simp: AList.update_conv' triples_graph_add distinct_graph_add)
  qed
  have "map_of (fillViolations rest ?vd) k = Some g" using 2(3) by simp
  from 2(1)[OF inv this] show ?case by simp
qed

text \<open>
  Claim C4. For every results graph, the dictionary that the two loops of lines 131-140
  build has pairwise different keys, its keys are exactly the objects of the \<open>sh:result\<close>
  triples of the results graph, and the graph stored under a key holds, each once, exactly
  the triples of the results graph whose subject is that key: none is lost, none occurs
  twice, and no other triple is in it.
\<close>

theorem grouping_exact:
  "distinct (map fst (groupViolations nd rg))
   \<and> set (map fst (groupViolations nd rg)) = {ob. \<exists>s. (s, SH_result, ob) \<in> set (triples rg)}
   \<and> (\<forall>(k, g) \<in> set (groupViolations nd rg).
        distinct (triples g) \<and> set (triples g) = {t \<in> set (triples rg). fst t = k})"
proof -
  let ?vd0 = "newViolations nd (triples rg) []"
  have d: "distinct (map fst (groupViolations nd rg))"
    by (simp add: groupViolations_def fillViolations_keys newViolations_distinct)
  have k: "set (map fst (groupViolations nd rg)) = {ob. \<exists>s. (s, SH_result, ob) \<in> set (triples rg)}"
    by (simp add: groupViolations_def fillViolations_keys newViolations_keys)
  have e: "\<forall>k g. map_of ?vd0 k = Some g \<longrightarrow> distinct (triples g) \<and> set (triples g) = {t \<in> {}. fst t = k}"
  proof (intro allI impI)
    fix k g assume "map_of ?vd0 k = Some g"
    with newViolations_empty[where vd="[]" and nd=nd and ts="triples rg" and k=k and g=g]
    show "distinct (triples g) \<and> set (triples g) = {t \<in> {}. fst t = k}" by simp
  qed
  have c: "distinct (triples g) \<and> set (triples g) = {t \<in> set (triples rg). fst t = k}"
    if "(k, g) \<in> set (groupViolations nd rg)" for k g
  proof -
    from that d have "map_of (fillViolations (triples rg) ?vd0) k = Some g"
      by (simp add: groupViolations_def)
    from fillViolations_content[OF e this] show ?thesis by simp
  qed
  from d k c show ?thesis by blast
qed

section \<open>Properties of the search for offending triples\<close>

lemmas pn_defs = pn_local_ok_def pn_prefix_ok_def pn_chars_def pn_chars_u_def pn_chars_base_def
  is_digit_def

lemma parse_sh:
  "parse_pname ''sh:resultPath'' = Inr (''sh'', ''resultPath'')"
  "parse_pname ''sh:focusNode'' = Inr (''sh'', ''focusNode'')"
  "parse_pname ''sh:value'' = Inr (''sh'', ''value'')"
  "parse_pname ''sh:sourceShape'' = Inr (''sh'', ''sourceShape'')"
  by (simp_all add: parse_pname_def pn_defs)

lemma resolve_sh:
  assumes "map_of nd ''sh'' = Some sh"
  shows "resolve_pname nd ''sh:resultPath'' = Inr (URIRef (sh @ ''resultPath''))"
    and "resolve_pname nd ''sh:focusNode'' = Inr (URIRef (sh @ ''focusNode''))"
    and "resolve_pname nd ''sh:value'' = Inr (URIRef (sh @ ''value''))"
    and "resolve_pname nd ''sh:sourceShape'' = Inr (URIRef (sh @ ''sourceShape''))"
  using assms by (simp_all add: resolve_pname_def resolve_prefix_def parse_sh)

lemma violationPredicateObj_objects:
  "resolve_pname nd pn = Inr pr \<Longrightarrow>
   violationPredicateObj nd v pn mustFind =
     (if mustFind \<and> length (objects v pr) \<noteq> 1 then Inl (AssertionError ''Must have predicate'')
      else Inr (case objects v pr of [] \<Rightarrow> None | ob # rest \<Rightarrow> Some ob))"
  by (auto simp: violationPredicateObj_def objects_def split: list.splits)

lemma triples_single: "triples (graph_add Graph t) = [t]"
  by (simp add: graph_add_def Graph_def)

lemma attachTriple_terms:
  "attachTriple (Some s, Some p, Some ob) (violation, n) =
     ((graph_add violation (FreshBNode n, BSH_offendingTriple, GraphNode [(s, p, ob)]), Suc n), None)"
  by (simp add: attachTriple_def Graph_add_def triples_single)

lemma attachTriple_no_object:
  "attachTriple (Some s, Some p, None) vn =
     (vn, Some (AssertionError ''Object None must be an rdflib term''))"
  by (simp add: attachTriple_def Graph_add_def)

lemma attachments_graph_add:
  "t \<notin> set (triples v) \<Longrightarrow> fst (snd t) = BSH_offendingTriple \<Longrightarrow>
   attachments (graph_add v t) = attachments v @ [snd (snd t)]"
  by (cases t) (auto simp: attachments_def objects_def graph_add_def)

lemma path_violation_with_value:
  assumes "map_of nd ''sh'' = Some sh"
    and "objects violation (URIRef (sh @ ''resultPath'')) = resultPath # others"
    and "truthy (Some resultPath)"
    and "objects violation (URIRef (sh @ ''focusNode'')) = [focusNode]"
    and "objects violation (URIRef (sh @ ''value'')) = valueNode # further"
  shows "triplesForOneViolation nd dg (violation, n) =
           ((graph_add violation
               (FreshBNode n, BSH_offendingTriple, GraphNode [(focusNode, resultPath, valueNode)]),
             Suc n), None)"
proof -
  have rp: "violationPredicateObj nd violation ''sh:resultPath'' False = Inr (Some resultPath)"
    using violationPredicateObj_objects[OF resolve_sh(1)[OF assms(1)]] assms(2) by simp
  have fn: "violationPredicateObj nd violation ''sh:focusNode'' True = Inr (Some focusNode)"
    using violationPredicateObj_objects[OF resolve_sh(2)[OF assms(1)]] assms(4) by simp
  have vn: "violationPredicateObj nd violation ''sh:value'' False = Inr (Some valueNode)"
    using violationPredicateObj_objects[OF resolve_sh(3)[OF assms(1)]] assms(5) by simp
  show ?thesis
    using assms(3) by (simp add: triplesForOneViolation_def rp fn vn attachTriple_terms)
qed

lemma path_violation_without_value:
  assumes "map_of nd ''sh'' = Some sh"
    and "objects violation (URIRef (sh @ ''resultPath'')) = resultPath # others"
    and "truthy (Some resultPath)"
    and "objects violation (URIRef (sh @ ''focusNode'')) = [focusNode]"
    and "objects violation (URIRef (sh @ ''value'')) = []"
  shows "triplesForOneViolation nd dg (violation, n) =
           ((violation, n), Some (AssertionError ''Object None must be an rdflib term''))"
proof -
  have rp: "violationPredicateObj nd violation ''sh:resultPath'' False = Inr (Some resultPath)"
    using violationPredicateObj_objects[OF resolve_sh(1)[OF assms(1)]] assms(2) by simp
  have fn: "violationPredicateObj nd violation ''sh:focusNode'' True = Inr (Some focusNode)"
    using violationPredicateObj_objects[OF resolve_sh(2)[OF assms(1)]] assms(4) by simp
  have vn: "violationPredicateObj nd violation ''sh:value'' False = Inr None"
    using violationPredicateObj_objects[OF resolve_sh(3)[OF assms(1)]] assms(5) by simp
  show ?thesis
    using assms(3) by (simp add: triplesForOneViolation_def rp fn vn attachTriple_no_object)
qed

lemma pn_prefix_no_colon: "pn_prefix_ok k \<Longrightarrow> CHR '':'' \<notin> set k"
  by (auto simp: pn_defs list_all_iff)

lemma takeWhile_prefix_colon:
  "CHR '':'' \<notin> set k \<Longrightarrow> takeWhile (\<lambda>c. c \<noteq> CHR '':'') (k @ CHR '':'' # name) = k"
  by (induction k) auto

lemma parse_prefixed:
  "pn_prefix_ok k \<Longrightarrow> pn_local_ok name \<Longrightarrow> parse_pname (k @ '':'' @ name) = Inr (k, name)"
  using pn_prefix_no_colon[of k] by (simp add: parse_pname_def takeWhile_prefix_colon)

lemma parse_brick:
  "pn_local_ok P \<Longrightarrow> parse_pname (''brick:'' @ P) = Inr (''brick'', P)"
  using parse_prefixed[of "''brick''" P] by (simp add: pn_defs)

lemma attachEach_foldl:
  "attachEach (Some f) (Some fp) (map (\<lambda>ob. (None, None, Some ob)) obs) (v, n) =
     ((foldl graph_add v
        (map (\<lambda>(i, ob). (FreshBNode i, BSH_offendingTriple, GraphNode [(f, fp, ob)]))
           (enumerate n obs)),
       n + length obs), None)"
  by (induction obs arbitrary: v n) (auto simp: attachTriple_terms)

lemma first_prefix_bound:
  assumes "distinct (map fst nd)" and "(k, val) \<in> set nd"
  shows "\<exists>k0. hd (map fst (filter (\<lambda>(key, v). val = v) nd)) = k0 \<and> map_of nd k0 = Some val
           \<and> k0 \<in> set (map fst nd) \<and> filter (\<lambda>(key, v). val = v) nd \<noteq> []"
proof -
  let ?f = "filter (\<lambda>(key, v). val = v) nd"
  from assms(2) have ne: "?f \<noteq> []" by (auto simp: filter_empty_conv)
  then have "hd ?f \<in> set ?f" by (rule hd_in_set)
  moreover have "\<forall>x \<in> set ?f. x \<in> set nd \<and> snd x = val" by auto
  ultimately have "hd ?f \<in> set nd" and "snd (hd ?f) = val" by blast+
  then have "(fst (hd ?f), val) \<in> set nd" by (metis prod.collapse)
  with assms(1) have "map_of nd (fst (hd ?f)) = Some val" by simp
  moreover have "hd (map fst ?f) = fst (hd ?f)" using ne by (simp add: hd_map)
  moreover have "fst (hd ?f) \<in> set (map fst nd)" using \<open>hd ?f \<in> set nd\<close> by simp
  ultimately show ?thesis using ne by simp
qed

lemma endswith_append: "endswith (P @ suffix) suffix"
  by (simp add: endswith_def)

text \<open>
  Claim C6, as amended. Let the dictionary be a dictionary of prefixes (no key twice, every
  key a legal prefix) that binds \<open>sh\<close> and \<open>brick\<close>; let the violation have no result
  path, exactly one source shape, which splits at \<open>#\<close> into a namespace and \<open>P\<close> followed
  by \<open>DomainShape\<close>, and exactly one focus node, which splits at \<open>#\<close> into \<open>ns\<close> and
  \<open>name\<close>, with some prefix bound to \<open>ns#\<close>; let \<open>P\<close> and \<open>name\<close> be legal local names.
  Then the data graph is searched for the triples with subject \<open>ns#name\<close> and predicate
  the namespace of \<open>brick\<close> followed by \<open>P\<close>; for each of them, in order, one attachment
  (focus node, that predicate, the object found) is added under a new blank node. When no
  triple matches, the assertion of \<open>__queryDataGraph\<close> fails and nothing is attached.
\<close>

theorem domain_shape_attachments:
  assumes "distinct (map fst nd)"
    and "\<forall>k \<in> set (map fst nd). pn_prefix_ok k"
    and "map_of nd ''sh'' = Some sh"
    and "map_of nd ''brick'' = Some brick"
    and "objects violation (URIRef (sh @ ''resultPath'')) = []"
    and "objects violation (URIRef (sh @ ''sourceShape'')) = [sourceShape]"
    and "split_hash (Some sourceShape) = Inr (bsh, P @ ''DomainShape'')"
    and "pn_local_ok P"
    and "objects violation (URIRef (sh @ ''focusNode'')) = [focusNode]"
    and "split_hash (Some focusNode) = Inr (ns, name)"
    and "pn_local_ok name"
    and "(k, ns @ ''#'') \<in> set nd"
  shows "triplesForOneViolation nd dg (violation, n) =
           (let found = map (\<lambda>(s, p, ob). ob)
                          (filter (\<lambda>(s, p, ob). s = URIRef (ns @ ''#'' @ name) \<and> p = URIRef (brick @ P))
                             (triples dg))
            in if found = [] then ((violation, n), Some (AssertionError ''Must have at least one triple''))
               else ((foldl graph_add violation
                        (map (\<lambda>(i, ob). (FreshBNode i, BSH_offendingTriple,
                                         GraphNode [(focusNode, URIRef (brick @ P), ob)]))
                           (enumerate n found)),
                      n + length found), None))"
proof -
  have rp: "violationPredicateObj nd violation ''sh:resultPath'' False = Inr None"
    using violationPredicateObj_objects[OF resolve_sh(1)[OF assms(3)]] assms(5) by simp
  have ss: "violationPredicateObj nd violation ''sh:sourceShape'' True = Inr (Some sourceShape)"
    using violationPredicateObj_objects[OF resolve_sh(4)[OF assms(3)]] assms(6) by simp
  have fn: "violationPredicateObj nd violation ''sh:focusNode'' True = Inr (Some focusNode)"
    using violationPredicateObj_objects[OF resolve_sh(2)[OF assms(3)]] assms(9) by simp
  have top: "triplesForOneViolation nd dg (violation, n) =
               domainShapeTriples nd dg (P @ ''DomainShape'') (violation, n)"
    by (simp add: triplesForOneViolation_def rp ss assms(7) endswith_append)
  from first_prefix_bound[OF assms(1) assms(12)] obtain k0 where
    k0: "hd (map fst (filter (\<lambda>(key, v). ns @ ''#'' = v) nd)) = k0"
      "map_of nd k0 = Some (ns @ ''#'')" "k0 \<in> set (map fst nd)"
      "filter (\<lambda>(key, v). ns @ ''#'' = v) nd \<noteq> []"
    by blast
  from k0(3) assms(2) have pk: "pn_prefix_ok k0" by blast
  have ls: "parse_pattern (Some (k0 @ '':'' @ name)) = Inr (Some (k0, name))"
    using parse_prefixed[OF pk assms(11)] by (simp add: parse_pattern_def)
  have lp: "parse_pattern (Some (''brick:'' @ P)) = Inr (Some (''brick'', P))"
    using parse_brick[OF assms(8)] by (simp add: parse_pattern_def)
  have lo: "parse_pattern None = Inr None"
    by (simp add: parse_pattern_def)
  have ps: "resolve_pattern nd (Some (k0, name)) = Inr (Some (URIRef (ns @ ''#'' @ name)))"
    by (simp add: resolve_pattern_def resolve_prefix_def k0(2))
  have pp: "resolve_pattern nd (Some (''brick'', P)) = Inr (Some (URIRef (brick @ P)))"
    by (simp add: resolve_pattern_def resolve_prefix_def assms(4))
  have po: "resolve_pattern nd None = Inr None"
    by (simp add: resolve_pattern_def)
  let ?m = "filter (\<lambda>(s, p, ob). s = URIRef (ns @ ''#'' @ name) \<and> p = URIRef (brick @ P)) (triples dg)"
  have q: "queryDataGraph nd dg (Some (k0 @ '':'' @ name)) (Some (''brick:'' @ P)) None =
             (if ?m = [] then Inl (AssertionError ''Must have at least one triple'')
              else Inr (map (\<lambda>ob. (None, None, Some ob)) (map (\<lambda>(s, p, ob). ob) ?m)))"
    unfolding queryDataGraph_def ls lp lo
    by (simp add: ps pp po pat_matches_def row_value_def case_prod_unfold)
  have bp: "take (length (P @ ''DomainShape'') - length ''DomainShape'') (P @ ''DomainShape'') = P"
    by simp
  have len: "length (map fst (filter (\<lambda>(key, val). ns @ ''#'' = val) nd)) \<noteq> 0"
    using k0(4) by simp
  have dom: "domainShapeTriples nd dg (P @ ''DomainShape'') (violation, n) =
          (if ?m = [] then ((violation, n), Some (AssertionError ''Must have at least one triple''))
           else attachEach (Some focusNode) (Some (URIRef (brick @ P)))
                  (map (\<lambda>ob. (None, None, Some ob)) (map (\<lambda>(s, p, ob). ob) ?m)) (violation, n))"
    using len
    by (simp only: domainShapeTriples_def Let_def bp assms(4) option.case fst_conv fn
          sum.case assms(10) prod.case k0(1) q if_False split: if_splits) simp
  show ?thesis
    unfolding top dom attachEach_foldl by (simp add: Let_def)
qed

lemma unhandled_violation_raises:
  assumes "map_of nd ''sh'' = Some sh"
    and "objects violation (URIRef (sh @ ''resultPath'')) = []"
    and "objects violation (URIRef (sh @ ''sourceShape'')) = [sourceShape]"
    and "split_hash (Some sourceShape) = Inr (bsh, shapeName)"
    and "\<not> endswith shapeName ''DomainShape''"
  shows "triplesForOneViolation nd dg (violation, n) = ((violation, n), Some (UnboundLocalError ''g''))"
proof -
  have rp: "violationPredicateObj nd violation ''sh:resultPath'' False = Inr None"
    using violationPredicateObj_objects[OF resolve_sh(1)[OF assms(1)]] assms(2) by simp
  have ss: "violationPredicateObj nd violation ''sh:sourceShape'' True = Inr (Some sourceShape)"
    using violationPredicateObj_objects[OF resolve_sh(4)[OF assms(1)]] assms(3) by simp
  show ?thesis using assms(5)
    by (simp add: triplesForOneViolation_def rp ss assms(4))
qed

section \<open>Properties of the graph operations and of the constructor\<close>

lemma triples_foldl_add: "set (triples (foldl graph_add g ts)) = set (triples g) \<union> set ts"
  by (induction ts arbitrary: g) (auto simp: triples_graph_add)



lemma buildNamespaceDict_from:
  "set (fst (buildNamespaceDict d ns)) \<subseteq> set d \<union> set ns"
proof (induction d ns rule: buildNamespaceDict.induct)
  case (1 d)
  then show ?case by simp
next
  case (2 d prefix path rest)
  then show ?case
    by (cases "map_of d prefix") (auto split: if_splits)
qed

lemma buildNamespaceDict_binds:
  "buildNamespaceDict d ns = (d', None) \<Longrightarrow> (p, iri) \<in> set ns \<Longrightarrow> map_of d' p = Some iri"
proof (induction d ns rule: buildNamespaceDict.induct)
  case (1 d)
  then show ?case by simp
next
  case (2 d prefix path rest)
  show ?case
  proof (cases "map_of d prefix")
    case None
    with 2(3) have b: "buildNamespaceDict (d @ [(prefix, path)]) rest = (d', None)" by simp
    show ?thesis
    proof (cases "(p, iri) = (prefix, path)")
      case True
      with None have "map_of (d @ [(prefix, path)]) p = Some iri"
        by (simp add: map_of_append map_add_def)
      from buildNamespaceDict_keeps[OF this, of rest] b show ?thesis by simp
    next
      case False
      with 2(4) have "(p, iri) \<in> set rest" by auto
      from 2(1)[OF None b this] show ?thesis .
    qed
  next
    case (Some v)
    with 2(3) have pv: "path = v" by (auto split: if_splits)
    with Some 2(3) have b: "buildNamespaceDict d rest = (d', None)" by simp
    show ?thesis
    proof (cases "(p, iri) = (prefix, path)")
      case True
      with Some pv have "map_of d p = Some iri" by simp
      from buildNamespaceDict_keeps[OF this, of rest] b show ?thesis by simp
    next
      case False
      with 2(4) have "(p, iri) \<in> set rest" by auto
      from 2(2)[OF Some pv b this] show ?thesis .
    qed
  qed
qed

lemma attach_brickG: "brickG (fst (attachOffendingTriples self)) = brickG self"
  by (auto simp: attachOffendingTriples_def split: option.splits prod.splits)

lemma validate_state:
  "fst (validate pyshacl self dg shacl_graph ont_graph opts) =
     (case pyshacl dg (graph_or shacl_graph (shapeG self)) (graph_or ont_graph (brickG self))
             (inference opts) (abort_on_error opts) (meta_shacl opts) (debug opts) of
        Inl e \<Rightarrow> self\<lparr>data_graph := Some dg\<rparr>
      | Inr (c, rg, rt) \<Rightarrow>
          if c \<or> \<not> attachOffender self
          then self\<lparr>data_graph := Some dg, conforms := Some c,
                    results_graph := Some rg, results_text := Some rt\<rparr>
          else fst (attachOffendingTriples
                      (self\<lparr>data_graph := Some dg, conforms := Some c,
                            results_graph := Some rg, results_text := Some rt\<rparr>)))"
  by (auto simp: validate_def Let_def split: sum.splits prod.splits option.splits)

lemma validate_brickG: "brickG (fst (validate pyshacl self dg shacl_graph ont_graph opts)) = brickG self"
  by (simp add: validate_state attach_brickG split: sum.splits prod.splits)

lemma run_brickG: "brickG (run pyshacl self calls) = brickG self"
  by (induction pyshacl self calls rule: run.induct) (auto simp: validate_brickG addShapeFile_def)

text \<open>
  Claim C10. Let the validator be constructed from a \<^verbatim>\<open>Brick.ttl\<close> that binds
  \<open>rdfs\<close> to the RDF Schema namespace. After any sequence of \<open>validate\<close> and
  \<open>addShapeFile\<close> calls, the ontology graph that a \<open>validate\<close> call without an
  \<open>ont_graph\<close> argument passes to the engine has no triple whose predicate is
  \<open>rdfs:domain\<close> or \<open>rdfs:range\<close>.
\<close>

theorem default_ontology_has_no_domain_or_range:
  assumes "init attach brickTtl shapeTtl = Inr self"
    and "(''rdfs'', RDFS) \<in> set (namespaces brickTtl)"
  shows "\<forall>(s, p, ob) \<in> set (triples (graph_or None (brickG (run pyshacl self calls)))).
           p \<noteq> URIRef (RDFS @ ''domain'') \<and> p \<noteq> URIRef (RDFS @ ''range'')"
proof -
  obtain d r where b: "buildNamespaceDict [] (namespaces brickTtl) = (d, r)"
    by (cases "buildNamespaceDict [] (namespaces brickTtl)")
  from assms(1) b have r: "r = None"
    by (cases r) (auto simp: init_def)
  from buildNamespaceDict_binds[OF b[unfolded r] assms(2)] have rd: "map_of d ''rdfs'' = Some RDFS" .
  have dom: "resolve_pname d ''rdfs:domain'' = Inr (URIRef (RDFS @ ''domain''))"
    and ran: "resolve_pname d ''rdfs:range'' = Inr (URIRef (RDFS @ ''range''))"
    using rd by (simp_all add: resolve_pname_def resolve_prefix_def parse_pname_def pn_defs)
  from assms(1) have "brickG self =
      brickTtl\<lparr>triples := filter (\<lambda>(s, p, ob). p \<noteq> URIRef (RDFS @ ''range''))
                             (filter (\<lambda>(s, p, ob). p \<noteq> URIRef (RDFS @ ''domain'')) (triples brickTtl))\<rparr>"
    by (auto simp: init_def b r update_delete_def dom ran)
  then show ?thesis
    by (auto simp: graph_or_def run_brickG)
qed

section \<open>Properties of \<open>validate\<close>\<close>





lemma buildNamespaceDict_all:
  "snd (buildNamespaceDict d ns) = None \<Longrightarrow> set (fst (buildNamespaceDict d ns)) = set d \<union> set ns"
proof (induction d ns rule: buildNamespaceDict.induct)
  case (1 d)
  then show ?case by simp
next
  case (2 d prefix path rest)
  show ?case
  proof (cases "map_of d prefix")
    case None
    with 2 show ?thesis by auto
  next
    case (Some v)
    with 2(3) have pv: "path = v" by (auto split: if_splits)
    with Some have "(prefix, path) \<in> set d" by (simp add: map_of_SomeD)
    with 2 Some pv show ?thesis by auto
  qed
qed

lemma attach_namespaceDict_eq:
  "results_graph self = Some rg \<Longrightarrow> data_graph self = Some dg \<Longrightarrow>
   namespaceDict (fst (attachOffendingTriples self)) =
     (case buildNamespaceDict [] (namespaces rg) of
        (d1, Some e) \<Rightarrow> d1
      | (d1, None) \<Rightarrow> fst (buildNamespaceDict d1 (namespaces dg)))"
  by (auto simp: attachOffendingTriples_def split: option.splits prod.splits)

text \<open>
  Claim C2, as amended. Registering a graph removes and changes no binding. A call of
  \<open>validate\<close> in which the engine reports conformance, or with \<open>attachOffender\<close> off,
  leaves the dictionary as it was. Every other call in which the engine returns starts
  from the empty dictionary and registers the results graph and then, unless that raised,
  the data graph: whatever the dictionary held before the call plays no part, and when
  neither registration raises the bindings afterwards are exactly the bindings of the
  results graph and of the data graph of that call.
\<close>

theorem registry_rebuilt_each_attaching_call:
  "(map_of d p = Some v \<longrightarrow> map_of (fst (buildNamespaceDict d ns)) p = Some v)
   \<and> (pyshacl dg (graph_or shacl_graph (shapeG self)) (graph_or ont_graph (brickG self))
         (inference opts) (abort_on_error opts) (meta_shacl opts) (debug opts) = Inr (c, rg, rt) \<longrightarrow>
       (if c \<or> \<not> attachOffender self
        then namespaceDict (fst (validate pyshacl self dg shacl_graph ont_graph opts)) = namespaceDict self
        else namespaceDict (fst (validate pyshacl self dg shacl_graph ont_graph opts)) =
               (case buildNamespaceDict [] (namespaces rg) of
                  (d1, Some e) \<Rightarrow> d1
                | (d1, None) \<Rightarrow> fst (buildNamespaceDict d1 (namespaces dg)))
             \<and> (snd (buildNamespaceDict [] (namespaces rg)) = None
                \<and> snd (buildNamespaceDict (fst (buildNamespaceDict [] (namespaces rg))) (namespaces dg)) = None
                \<longrightarrow> set (namespaceDict (fst (validate pyshacl self dg shacl_graph ont_graph opts)))
                      = set (namespaces rg) \<union> set (namespaces dg))))"
proof -
  let ?self2 = "self\<lparr>data_graph := Some dg, conforms := Some c,
                     results_graph := Some rg, results_text := Some rt\<rparr>"
  let ?d = "case buildNamespaceDict [] (namespaces rg) of
                  (d1, Some e) \<Rightarrow> d1
                | (d1, None) \<Rightarrow> fst (buildNamespaceDict d1 (namespaces dg))"
  have a: "namespaceDict (fst (attachOffendingTriples ?self2)) = ?d"
    by (rule attach_namespaceDict_eq) simp_all
  have s: "set ?d = set (namespaces rg) \<union> set (namespaces dg)"
    if "snd (buildNamespaceDict [] (namespaces rg)) = None"
      and "snd (buildNamespaceDict (fst (buildNamespaceDict [] (namespaces rg))) (namespaces dg)) = None"
    using buildNamespaceDict_all[OF that(1)] buildNamespaceDict_all[OF that(2)] that(1)
    by (cases "buildNamespaceDict [] (namespaces rg)") auto
  show ?thesis
    using buildNamespaceDict_keeps[of d p v ns] a s
    by (auto simp: validate_state simp del: buildNamespaceDict.simps)
qed

section \<open>Properties of the serializer\<close>

lemma foldl_lines:
  "foldl (\<lambda>acc line. if P line then acc @ [line, nl] else acc) x ls =
   x @ concat (map (\<lambda>line. [line, nl]) (filter P ls))"
  by (induction ls arbitrary: x) auto

lemma appendGraph_shown:
  "appendGraph ser nd out msg g =
     out @ (case msg of None \<Rightarrow> [] | Some m \<Rightarrow> if m = [] then [] else [m]) @ shown ser nd g"
proof -
  have k: "(\<lambda>acc line. if \<not> startswith line ''@prefix'' \<and> \<not> contains line ''offendingTriple''
                          \<and> strip_nonempty line then acc @ [line, newline] else acc)
           = (\<lambda>acc line. if kept line then acc @ [line, newline] else acc)"
    by (simp add: kept_def)
  show ?thesis
    unfolding appendGraph_def Let_def k foldl_lines shown_def
    by (cases msg) auto
qed

lemma appendGraph_each:
  "foldl (\<lambda>acc tripleG. appendGraph ser nd acc None tripleG) out gs =
   out @ concat (map (shown ser nd) gs)"
  by (induction gs arbitrary: out) (auto simp: appendGraph_shown)

lemma tripleGraphsOf_graphs:
  "map (\<lambda>(s, p, ob). ob) (filter (\<lambda>(s, p, ob). p = BSH_offendingTriple) ts) = map GraphNode tss \<Longrightarrow>
   tripleGraphsOf ts acc = Inr (acc @ map (foldl graph_add Graph) tss)"
proof (induction ts acc arbitrary: tss rule: tripleGraphsOf.induct)
  case (1 tripleGraphs)
  then show ?case by simp
next
  case (2 s p ob rest tripleGraphs)
  show ?case
  proof (cases "p = BSH_offendingTriple")
    case True
    with 2(3) obtain h tl where tss: "tss = h # tl" and ob: "ob = GraphNode h"
      and rest: "map (\<lambda>(s, p, ob). ob) (filter (\<lambda>(s, p, ob). p = BSH_offendingTriple) rest) = map GraphNode tl"
      by (cases tss) auto
    have ci: "copyInner ob = Inr (foldl graph_add Graph h)" by (simp add: ob copyInner_def)
    from 2(1)[OF True ci rest] show ?thesis using True ci tss by simp
  next
    case False
    with 2(2)[OF False, of tss] 2(3) show ?thesis by simp
  qed
qed

text \<open>
  Claim C9. For a violation without attachments \<open>__appendViolation\<close> writes the message,
  the lines shown of the violation and then the placeholder string, and nothing else. For
  a violation whose attachments are the graphs \<open>tss\<close>, at least one, it writes the
  message and the lines shown of the violation, then the label (\<open>Offending triple:\<close>
  for one attachment, \<open>Potential offending triples:\<close> for more), then for each
  attachment in turn the lines shown of a graph that has exactly the triples of that
  attachment.
\<close>

theorem placeholder_or_labelled_section:
  "(attachments g = [] \<longrightarrow>
      appendViolation ser nd out msg g =
        (out @ (case msg of None \<Rightarrow> [] | Some m \<Rightarrow> if m = [] then [] else [m])
           @ shown ser nd g @ [placeholder], None))
   \<and> (tss \<noteq> [] \<and> attachments g = map GraphNode tss \<longrightarrow>
      appendViolation ser nd out msg g =
        (out @ (case msg of None \<Rightarrow> [] | Some m \<Rightarrow> if m = [] then [] else [m])
           @ shown ser nd g
           @ [if length tss = 1 then ''Offending triple:'' @ newline
              else ''Potential offending triples:'' @ newline]
           @ concat (map (\<lambda>ts. shown ser nd (foldl graph_add Graph ts)) tss),
         None)
      \<and> list_all (\<lambda>ts. set (triples (foldl graph_add Graph ts)) = set ts) tss)"
proof -
  have t: "tripleGraphsOf (triples g) [] = Inr (map (foldl graph_add Graph) tss')"
    if "attachments g = map GraphNode tss'" for tss'
    using tripleGraphsOf_graphs[of "triples g" tss' "[]"] that
    by (simp add: attachments_def objects_def)
  have a: "appendViolation ser nd out msg g =
        (out @ (case msg of None \<Rightarrow> [] | Some m \<Rightarrow> if m = [] then [] else [m])
           @ shown ser nd g @ [placeholder], None)"
    if "attachments g = []"
    using t[of "[]"] that by (simp add: appendViolation_def Let_def appendGraph_shown)
  have b: "appendViolation ser nd out msg g =
        (out @ (case msg of None \<Rightarrow> [] | Some m \<Rightarrow> if m = [] then [] else [m])
           @ shown ser nd g
           @ [if length tss = 1 then ''Offending triple:'' @ newline
              else ''Potential offending triples:'' @ newline]
           @ concat (map (\<lambda>ts. shown ser nd (foldl graph_add Graph ts)) tss),
         None)"
    if "tss \<noteq> []" and "attachments g = map GraphNode tss"
    using t[OF that(2)] that(1)
    by (simp add: appendViolation_def Let_def appendGraph_each appendGraph_shown comp_def)
  have c: "list_all (\<lambda>ts. set (triples (foldl graph_add Graph ts)) = set ts) tss"
    by (simp add: list_all_iff triples_foldl_add Graph_def)
  from a b c show ?thesis by blast
qed

section \<open>The properties on the example inputs\<close>

lemmas ex_defs = ex_nd_def ex_data_def ex_data2_def ex_path_violation_def ex_domain_violation_def
  ex_unhandled_violation_def ex_results_def ex_engine_def ex_opts_def ex_brick_ttl_def
  ex_validator_def ex_brick_def ex_ns_def SH_def BSH_def RDFS_def SH_result_def
  BSH_offendingTriple_def

lemmas query_defs = triplesForOneViolation_def violationPredicateObj_def resolve_pname_def
  resolve_prefix_def parse_pname_def pn_defs split_hash_def unpack2_def endswith_def

text \<open>
  Claim C1 says that a violation without a result path whose source shape does not end in
  \<open>DomainShape\<close> is logged and left without attachments, and that nothing is raised.
  On the example violation (source shape \<open>bsh:MeterShape\<close>) the code leaves the violation
  as it was but raises \<open>UnboundLocalError\<close>: line 240 formats the unassigned local
  variable \<open>g\<close> into the log message. The lemma \<open>unhandled_violation_raises\<close> above
  shows the same for every such violation.
\<close>

theorem line_240_raises_on_example:
  "triplesForOneViolation ex_nd ex_data (ex_unhandled_violation, 0) =
     ((ex_unhandled_violation, 0), Some (UnboundLocalError ''g''))"
  by (simp add: query_defs ex_defs)

text \<open>
  Claim C5 says that a violation with a result path gets exactly one attachment, whose
  object is a placeholder when the violation has no value, and that the absent value
  raises nothing. On the example violation (a focus node, a result path, no value) line
  206 passes \<open>None\<close> as the object of the triple and \<open>Graph.add\<close> raises
  \<open>AssertionError\<close>; the violation is left without attachment. The lemma
  \<open>path_violation_without_value\<close> above shows the same for every violation with a result
  path, one focus node and no value, and \<open>path_violation_with_value\<close> shows that with a
  value the one attachment is made.
\<close>

theorem line_206_raises_on_example:
  "triplesForOneViolation ex_nd ex_data (ex_path_violation, 0) =
     ((ex_path_violation, 0), Some (AssertionError ''Object None must be an rdflib term''))"
  by (simp add: query_defs attachTriple_def Graph_add_def ex_defs)

text \<open>
  Claim C6 says that for every violation without a result path whose source shape is named
  \<open>...#PDomainShape\<close> the data graph is searched and one attachment is made for each
  matching triple. On the example the focus node \<open>http://example.com/Meter1\<close> has no
  \<open>#\<close>: the unpacking of line 225 raises \<open>ValueError\<close> and nothing is attached, although
  the data graph has a triple of the focus node with the predicate \<open>brick:hasPoint\<close>.
\<close>

theorem domain_shape_no_hash_raises:
  "triplesForOneViolation ex_slash_nd ex_slash_data (ex_slash_violation, 0) =
     ((ex_slash_violation, 0), Some ValueError)
   \<and> (URIRef ''http://example.com/Meter1'', URIRef (ex_brick @ ''hasPoint''),
       URIRef ''http://example.com/Point1'') \<in> set (triples ex_slash_data)"
  by (simp add: query_defs domainShapeTriples_def ex_slash_nd_def ex_slash_data_def
      ex_slash_violation_def ex_defs)

text \<open>The example of the shape \<open>bsh:hasPointDomainShape\<close> and the meter with one
  point: the single attachment is the triple of the data graph.\<close>

theorem domain_shape_attachments_witness:
  "triplesForOneViolation ex_nd ex_data (ex_domain_violation, 0) =
     ((graph_add ex_domain_violation
         (FreshBNode 0, BSH_offendingTriple,
          GraphNode [(URIRef (ex_ns @ ''Meter1''), URIRef (ex_brick @ ''hasPoint''),
                      URIRef (ex_ns @ ''Point1''))]),
       Suc 0), None)"
proof -
  have a: "distinct (map fst ex_nd)" by (simp add: ex_nd_def)
  have b: "\<forall>k \<in> set (map fst ex_nd). pn_prefix_ok k" by (simp add: ex_nd_def pn_defs)
  have c: "map_of ex_nd ''sh'' = Some SH" by (simp add: ex_nd_def)
  have d: "map_of ex_nd ''brick'' = Some ex_brick" by (simp add: ex_nd_def)
  have e: "objects ex_domain_violation (URIRef (SH @ ''resultPath'')) = []"
    by (simp add: objects_def ex_defs)
  have f: "objects ex_domain_violation (URIRef (SH @ ''sourceShape'')) = [URIRef (BSH @ ''hasPointDomainShape'')]"
    by (simp add: objects_def ex_defs)
  have g: "split_hash (Some (URIRef (BSH @ ''hasPointDomainShape''))) =
             Inr (''https://brickschema.org/schema/1.1/BrickShape'', ''hasPoint'' @ ''DomainShape'')"
    by (simp add: split_hash_def unpack2_def BSH_def)
  have g': "pn_local_ok ''hasPoint''" by (simp add: pn_defs)
  have h: "objects ex_domain_violation (URIRef (SH @ ''focusNode'')) = [URIRef (ex_ns @ ''Meter1'')]"
    by (simp add: objects_def ex_defs)
  have i: "split_hash (Some (URIRef (ex_ns @ ''Meter1''))) = Inr (''http://example.com'', ''Meter1'')"
    by (simp add: split_hash_def unpack2_def ex_ns_def)
  have i': "pn_local_ok ''Meter1''" by (simp add: pn_defs)
  have j: "(''ex'', ''http://example.com'' @ ''#'') \<in> set ex_nd"
    by (simp add: ex_nd_def ex_ns_def)
  from domain_shape_attachments[OF a b c d e f g g' h i i' j, of ex_data 0] show ?thesis
    by (simp add: ex_data_def ex_ns_def ex_brick_def enumerate_eq_zip)
qed

subsection \<open>The example session\<close>

text \<open>The first call on the example validator, step by step.\<close>

lemma ex_group: "groupViolations ex_nd ex_results = [(BNode ''v1'', ex_grouped)]"
  by (simp add: groupViolations_def ex_results_def ex_grouped_def ex_nd_def SH_result_def
      graph_add_def graph_bind_def Graph_def SH_def)

text \<open>The grouping of the example results graph: one key, and under it the three
  triples of the results graph with that subject.\<close>

theorem grouping_exact_witness:
  "groupViolations ex_nd ex_results = [(BNode ''v1'', ex_grouped)]
   \<and> distinct (triples ex_grouped)
   \<and> set (triples ex_grouped) = {t \<in> set (triples ex_results). fst t = BNode ''v1''}"
proof -
  have "(BNode ''v1'', ex_grouped) \<in> set (groupViolations ex_nd ex_results)"
    by (simp add: ex_group)
  with grouping_exact[of ex_nd ex_results] ex_group show ?thesis by blast
qed

lemma ex_resolve:
  "triplesForOneViolation ex_nd dg (ex_grouped, 0) = ((ex_enriched, Suc 0), None)"
  by (simp add: query_defs attachTriple_def Graph_add_def
      ex_grouped_def ex_enriched_def ex_nd_def graph_add_def Graph_def SH_def BSH_offendingTriple_def
      ex_brick_def)

lemma ex_registry:
  "buildNamespaceDict [] (namespaces ex_results) = ([(''sh'', SH)], None)"
  "buildNamespaceDict [(''sh'', SH)] (namespaces ex_data) = (ex_nd, None)"
  by (simp_all add: ex_results_def ex_data_def ex_nd_def)

lemma ex_attach:
  "attachOffendingTriples
     (ex_validator\<lparr>data_graph := Some ex_data, conforms := Some False,
            results_graph := Some ex_results, results_text := Some ''Does not conform''\<rparr>) =
     (ex_called, None)"
  by (simp add: attachOffendingTriples_def ex_registry ex_group ex_resolve ex_called_def ex_validator_def)

lemma ex_engine_violating:
  "ex_engine ex_data (graph_or None (shapeG self)) (graph_or None (brickG self))
     (inference ex_opts) (abort_on_error ex_opts) (meta_shacl ex_opts) (debug ex_opts) =
   Inr (False, ex_results, ''Does not conform'')"
  by (simp add: ex_engine_def ex_data_def)

lemma ex_engine_violating2:
  "ex_engine ex_data2 (graph_or None (shapeG self)) (graph_or None (brickG self))
     (inference ex_opts) (abort_on_error ex_opts) (meta_shacl ex_opts) (debug ex_opts) =
   Inr (False, ex_results, ''Does not conform'')"
  by (simp add: ex_engine_def ex_data2_def)


lemma ex_engine_conforming:
  "ex_engine Graph (graph_or None (shapeG self)) (graph_or None (brickG self))
     (inference ex_opts) (abort_on_error ex_opts) (meta_shacl ex_opts) (debug ex_opts) =
   Inr (True, Graph, ''Conforms'')"
  by (simp add: ex_engine_def Graph_def)

lemma ex_first_call:
  "validate ex_engine ex_validator ex_data None None ex_opts =
     (ex_called, Inr (False, foldl graph_union Graph [ex_enriched], ''Does not conform''))"
proof -
  have a: "attachOffender ex_validator" by (simp add: ex_validator_def)
  show ?thesis
    unfolding validate_def Let_def ex_engine_violating
    by (simp add: a ex_attach) (simp add: ex_called_def)
qed

lemma ex_init: "init True ex_brick_ttl Graph = Inr ex_validator"
  by (simp add: init_def update_delete_def resolve_pname_def resolve_prefix_def parse_pname_def
      pn_defs ex_brick_ttl_def ex_validator_def RDFS_def)




text \<open>On a validator that has attached nothing yet there is no \<open>violationDict\<close>.\<close>

lemma violationList_on_new_validator:
  "violationList (fst (validate ex_engine ex_validator Graph None None ex_opts)) =
     Inl (AttributeError ''violationDict'')"
  using ex_engine_conforming[of ex_validator]
  by (simp add: validate_state violationList_def ex_validator_def)


text \<open>
  Claim C2 says that the dictionary is never reset, so that a binding present after one
  call of \<open>validate\<close> is present after the next. In the example session the first call
  returns and leaves the prefix \<open>ex\<close> bound; after a second call, on another data graph,
  \<open>ex\<close> is not bound any more.
\<close>

theorem registry_emptied_by_next_call:
  "validate ex_engine ex_validator ex_data None None ex_opts =
       (ex_called, Inr (False, foldl graph_union Graph [ex_enriched], ''Does not conform''))
   \<and> map_of (namespaceDict ex_called) ''ex'' = Some ex_ns
   \<and> map_of (namespaceDict (fst (validate ex_engine ex_called ex_data2 None None ex_opts))) ''ex'' = None"
proof -
  have a: "attachOffender ex_called" by (simp add: ex_called_def ex_validator_def)
  have "namespaceDict (fst (validate ex_engine ex_called ex_data2 None None ex_opts)) =
          [(''sh'', SH), (''brick'', ex_brick), (''bldg'', ''http://building.org#'')]"
    using ex_engine_violating2[of ex_called] a
    by (simp add: validate_state attach_namespaceDict_eq ex_registry)
       (simp add: ex_data2_def)
  then show ?thesis
    by (simp add: ex_first_call) (simp add: ex_called_def ex_validator_def ex_nd_def)
qed

theorem registry_rebuilt_each_attaching_call_witness:
  "map_of (fst (buildNamespaceDict [(''ex'', ex_ns)] [(''brick'', ex_brick)])) ''ex'' = Some ex_ns
   \<and> namespaceDict (fst (validate ex_engine ex_validator Graph None None ex_opts))
       = namespaceDict ex_validator
   \<and> namespaceDict (fst (validate ex_engine ex_validator ex_data None None ex_opts)) = ex_nd
   \<and> set (namespaceDict (fst (validate ex_engine ex_validator ex_data None None ex_opts)))
       = set (namespaces ex_results) \<union> set (namespaces ex_data)"
proof -
  have a: "attachOffender ex_validator" by (simp add: ex_validator_def)
  have 1: "map_of (fst (buildNamespaceDict [(''ex'', ex_ns)] [(''brick'', ex_brick)])) ''ex'' = Some ex_ns"
    using registry_rebuilt_each_attaching_call
      [where d="[(''ex'', ex_ns)]" and p="''ex''" and v=ex_ns and ns="[(''brick'', ex_brick)]"
         and pyshacl=ex_engine and dg=Graph and shacl_graph=None and ont_graph=None
         and self=ex_validator and opts=ex_opts and c=True and rg=Graph and rt="''Conforms''"]
    by simp
  have 2: "namespaceDict (fst (validate ex_engine ex_validator Graph None None ex_opts))
       = namespaceDict ex_validator"
    using registry_rebuilt_each_attaching_call
      [where d="[]" and p="''ex''" and v=ex_ns and ns="[]"
         and pyshacl=ex_engine and dg=Graph and shacl_graph=None and ont_graph=None
         and self=ex_validator and opts=ex_opts and c=True and rg=Graph and rt="''Conforms''"]
      ex_engine_conforming[of ex_validator]
    by simp
  have np: "\<not> (False \<or> \<not> attachOffender ex_validator)" using a by simp
  note t = registry_rebuilt_each_attaching_call
      [where d="[]" and p="''ex''" and v=ex_ns and ns="[]"
         and pyshacl=ex_engine and dg=ex_data and shacl_graph=None and ont_graph=None
         and self=ex_validator and opts=ex_opts and c=False and rg=ex_results
         and rt="''Does not conform''", THEN conjunct2, THEN mp,
       OF ex_engine_violating[of ex_validator], unfolded if_not_P[OF np]]
  from t have 3: "namespaceDict (fst (validate ex_engine ex_validator ex_data None None ex_opts)) = ex_nd"
    by (simp add: ex_registry)
  have p: "snd (buildNamespaceDict [] (namespaces ex_results)) = None
           \<and> snd (buildNamespaceDict (fst (buildNamespaceDict [] (namespaces ex_results)))
                    (namespaces ex_data)) = None"
    by (simp add: ex_registry)
  note 4 = t[THEN conjunct2, THEN mp, OF p]
  from 1 2 3 4 show ?thesis by blast
qed

text \<open>The example ontology loses its two axioms and keeps its third triple.\<close>

theorem default_ontology_has_no_domain_or_range_witness:
  "init True ex_brick_ttl Graph = Inr ex_validator
   \<and> (''rdfs'', RDFS) \<in> set (namespaces ex_brick_ttl)
   \<and> (URIRef (ex_brick @ ''Point''), URIRef (RDFS @ ''subClassOf''), URIRef (ex_brick @ ''Class''))
       \<in> set (triples (graph_or None (brickG (run ex_engine ex_validator
                 [Validate ex_data None None ex_opts, AddShapeFile ex_data2]))))
   \<and> (URIRef (ex_brick @ ''hasPoint''), URIRef (RDFS @ ''domain''), URIRef (ex_brick @ ''Equipment''))
       \<notin> set (triples (graph_or None (brickG (run ex_engine ex_validator
                 [Validate ex_data None None ex_opts, AddShapeFile ex_data2]))))
   \<and> (URIRef (ex_brick @ ''hasPoint''), URIRef (RDFS @ ''range''), URIRef (ex_brick @ ''Point''))
       \<notin> set (triples (graph_or None (brickG (run ex_engine ex_validator
                 [Validate ex_data None None ex_opts, AddShapeFile ex_data2]))))"
proof -
  have r: "(''rdfs'', RDFS) \<in> set (namespaces ex_brick_ttl)" by (simp add: ex_brick_ttl_def)
  have n: "(URIRef (ex_brick @ ''Point''), URIRef (RDFS @ ''subClassOf''), URIRef (ex_brick @ ''Class''))
       \<in> set (triples (graph_or None (brickG (run ex_engine ex_validator
                 [Validate ex_data None None ex_opts, AddShapeFile ex_data2]))))"
    by (simp only: run_brickG) (simp add: graph_or_def ex_validator_def)
  from default_ontology_has_no_domain_or_range[OF ex_init r, of ex_engine
         "[Validate ex_data None None ex_opts, AddShapeFile ex_data2]"]
       ex_init r n
  show ?thesis by blast
qed

lemma ex_shown:
  "shown ex_ser ex_nd ex_unhandled_violation =
     [''_:v3 <http://www.w3.org/ns/shacl#focusNode> <http://example.com#Meter1> .'', newline,
      ''_:v3 <http://www.w3.org/ns/shacl#sourceShape> <https://brickschema.org/schema/1.1/BrickShape#MeterShape> .'',
      newline]"
  "shown ex_ser ex_nd ex_enriched =
     [''_:v1 <http://www.w3.org/ns/shacl#focusNode> <http://example.com#Meter1> .'', newline,
      ''_:v1 <http://www.w3.org/ns/shacl#resultPath> <https://brickschema.org/schema/1.1/Brick#hasPoint> .'',
      newline,
      ''_:v1 <http://www.w3.org/ns/shacl#value> <http://example.com#Point1> .'', newline]"
  "shown ex_ser ex_nd
     (foldl graph_add Graph
        [(URIRef (ex_ns @ ''Meter1''), URIRef (ex_brick @ ''hasPoint''), URIRef (ex_ns @ ''Point1''))]) =
     [''<http://example.com#Meter1> <https://brickschema.org/schema/1.1/Brick#hasPoint> <http://example.com#Point1> .'',
      newline]"
  by (simp_all add: shown_def kept_def ex_ser_def strip_nonempty_def is_space_def graph_bind_def
      graph_add_def Graph_def ex_unhandled_violation_def ex_enriched_def ex_nd_def ex_ns_def
      ex_brick_def SH_def BSH_def BSH_offendingTriple_def)

text \<open>What is written for the unhandled example violation and for the enriched one, with
  the example serializer.\<close>

theorem placeholder_or_labelled_section_witness:
  "appendViolation ex_ser ex_nd [] (Some (''Constraint violation:'' @ newline)) ex_unhandled_violation =
     ([''Constraint violation:'' @ newline,
       ''_:v3 <http://www.w3.org/ns/shacl#focusNode> <http://example.com#Meter1> .'', newline,
       ''_:v3 <http://www.w3.org/ns/shacl#sourceShape> <https://brickschema.org/schema/1.1/BrickShape#MeterShape> .'',
       newline,
       placeholder], None)
   \<and> appendViolation ex_ser ex_nd [] (Some (''Constraint violation:'' @ newline)) ex_enriched =
     ([''Constraint violation:'' @ newline,
       ''_:v1 <http://www.w3.org/ns/shacl#focusNode> <http://example.com#Meter1> .'', newline,
       ''_:v1 <http://www.w3.org/ns/shacl#resultPath> <https://brickschema.org/schema/1.1/Brick#hasPoint> .'',
       newline,
       ''_:v1 <http://www.w3.org/ns/shacl#value> <http://example.com#Point1> .'', newline,
       ''Offending triple:'' @ newline,
       ''<http://example.com#Meter1> <https://brickschema.org/schema/1.1/Brick#hasPoint> <http://example.com#Point1> .'',
       newline], None)"
proof -
  have a: "attachments ex_unhandled_violation = []"
    by (simp add: attachments_def objects_def ex_unhandled_violation_def SH_def BSH_def
        BSH_offendingTriple_def)
  have b: "attachments ex_enriched =
             map GraphNode [[(URIRef (ex_ns @ ''Meter1''), URIRef (ex_brick @ ''hasPoint''),
                              URIRef (ex_ns @ ''Point1''))]]"
    by (simp add: attachments_def objects_def ex_enriched_def SH_def BSH_def
        BSH_offendingTriple_def)
  from placeholder_or_labelled_section
         [of ex_unhandled_violation ex_ser ex_nd "[]" "Some (''Constraint violation:'' @ newline)" "[]"] a
  have 1: "appendViolation ex_ser ex_nd [] (Some (''Constraint violation:'' @ newline)) ex_unhandled_violation =
     ([''Constraint violation:'' @ newline] @ shown ex_ser ex_nd ex_unhandled_violation @ [placeholder], None)"
    by (simp add: newline_def)
  from placeholder_or_labelled_section
         [of ex_enriched ex_ser ex_nd "[]" "Some (''Constraint violation:'' @ newline)"
             "[[(URIRef (ex_ns @ ''Meter1''), URIRef (ex_brick @ ''hasPoint''), URIRef (ex_ns @ ''Point1''))]]"] b
  have 2: "appendViolation ex_ser ex_nd [] (Some (''Constraint violation:'' @ newline)) ex_enriched =
     ([''Constraint violation:'' @ newline] @ shown ex_ser ex_nd ex_enriched
        @ [''Offending triple:'' @ newline]
        @ shown ex_ser ex_nd
            (foldl graph_add Graph
               [(URIRef (ex_ns @ ''Meter1''), URIRef (ex_brick @ ''hasPoint''), URIRef (ex_ns @ ''Point1''))]),
      None)"
    by (simp add: newline_def)
  show ?thesis unfolding 1 2 ex_shown by simp
qed

end
